theory Spec2Isabelle
  imports Complex_Main "HOL-Library.Sublist"
begin

text \<open>
  A model of the ad-video wizard: the gateway functions that wrap the generative
  provider, the audio post-processing, the handlers that keep the wizard's artifacts,
  and the compositor that records the clips under the narration. Each function of the
  source is a function here; what the provider and the browser do is a parameter or an
  event. The properties follow the definitions.
\<close>

section \<open>JavaScript values shared by the gateway and the wizard\<close>

text \<open>
  Strings are byte strings (\<^typ>\<open>string\<close>); the text the program compares against is
  ASCII. A value that a \<^verbatim>\<open>throw\<close> or a rejected promise carries is either an
  instance of \<^verbatim>\<open>Error\<close> with its message, or any other value: the gateway's
  \<^verbatim>\<open>catch\<close> blocks test \<^verbatim>\<open>error instanceof Error\<close>.
\<close>

datatype thrown = Error string | NonError string

text \<open>
  \<^verbatim>\<open>String.prototype.trim\<close> and \<^verbatim>\<open>toLowerCase\<close>, on ASCII: the white space
  stripped is TAB, LF, VT, FF, CR and SPACE, and the letters folded are A to Z. Bytes
  outside ASCII are left alone: the white space and the line separators that Unicode
  adds to these (U+00A0, U+2028 and the like) and the case folding of other letters
  are outside the model.
\<close>

definition isWhiteSpace :: "char \<Rightarrow> bool" where
  "isWhiteSpace c = (c \<in> set [CHR 0x09, CHR 0x0A, CHR 0x0B, CHR 0x0C, CHR 0x0D, CHR 0x20])"

definition trim :: "string \<Rightarrow> string" where
  "trim s = rev (dropWhile isWhiteSpace (rev (dropWhile isWhiteSpace s)))"

definition lowerChar :: "char \<Rightarrow> char" where
  "lowerChar c =
     (let n = (of_char c :: nat)
      in if 65 \<le> n \<and> n \<le> 90 then char_of (n + 32) else c)"

definition toLowerCase :: "string \<Rightarrow> string" where
  "toLowerCase s = map lowerChar s"

text \<open>
  \<^verbatim>\<open>text.match(/Label: (.*)/)\<close> for a literal label: the match starts at the leftmost
  occurrence of the label, and the group \<^verbatim>\<open>(.*)\<close> takes everything up to the next
  line terminator (LF or CR). No occurrence gives \<^verbatim>\<open>null\<close>.
\<close>

definition isLineTerminator :: "char \<Rightarrow> bool" where
  "isLineTerminator c = (c = CHR 0x0A \<or> c = CHR 0x0D)"

fun matchLabel :: "string \<Rightarrow> string \<Rightarrow> string option" where
  "matchLabel label [] = (if label = [] then Some [] else None)"
| "matchLabel label (c # cs) =
     (if prefix label (c # cs)
      then Some (takeWhile (\<lambda>x. \<not> isLineTerminator x) (drop (length label) (c # cs)))
      else matchLabel label cs)"

section \<open>Media Generation Gateway (services/geminiService.ts)\<close>

text \<open>
  The provider's answer to \<^verbatim>\<open>ai.models.generateContent\<close>. A response carries the
  text getter (\<^verbatim>\<open>undefined\<close> when the answer has no text part), the block reason of
  the prompt feedback, and the parts of the first candidate (absent when there is no
  candidate, no content or no parts). The call itself may reject.
\<close>

record part =
  inlineData :: "(string \<times> string) option"
  partText :: "string option"

record response =
  responseText :: "string option"
  blockReason :: "string option"
  parts :: "part list option"

type_synonym provider_outcome = "thrown + response"

subsection \<open>determineModelGender\<close>

text \<open>
  The body of the \<^verbatim>\<open>try\<close> block: the awaited call rethrows a rejection, and
  \<^verbatim>\<open>response.text.trim()\<close> on an undefined text throws a TypeError.
\<close>

definition determineModelGender_try :: "provider_outcome \<Rightarrow> thrown + string" where
  "determineModelGender_try r =
     (case r of
        Inl e \<Rightarrow> Inl e
      | Inr resp \<Rightarrow>
          (case responseText resp of
             None \<Rightarrow> Inl (Error ''Cannot read properties of undefined (reading 'trim')'')
           | Some t \<Rightarrow>
               (let gender = toLowerCase (trim t)
                in if gender = ''male'' then Inr ''male'' else Inr ''female'')))"

text \<open>The \<^verbatim>\<open>catch\<close> block logs and returns the default.\<close>

definition determineModelGender :: "provider_outcome \<Rightarrow> thrown + string" where
  "determineModelGender r =
     (case determineModelGender_try r of
        Inl e \<Rightarrow> Inr ''female''
      | Inr g \<Rightarrow> Inr g)"

subsection \<open>generateCaptionAndHashtags\<close>

record caption_data =
  caption :: string
  hashtags :: string

text \<open>
  The last bytes of the fallback caption are those of the source file's literal after
  the exclamation mark and the space.
\<close>

definition fallbackCaption :: "string \<Rightarrow> string" where
  "fallbackCaption productName =
     ''Wajib coba '' @ productName @ ''! '' @
       [CHR 0xC3, CHR 0xA2, CHR 0xC5, CHR 0x93, CHR 0xC2, CHR 0xA8]"

definition fallbackHashtags :: string where
  "fallbackHashtags = ''#fyp #racuntiktok #productreview #xyzbca #tiktokmademebuyit''"

definition generateCaptionAndHashtags_try :: "provider_outcome \<Rightarrow> thrown + caption_data" where
  "generateCaptionAndHashtags_try r =
     (case r of
        Inl e \<Rightarrow> Inl e
      | Inr resp \<Rightarrow>
          (case responseText resp of
             None \<Rightarrow> Inl (Error ''Cannot read properties of undefined (reading 'match')'')
           | Some text \<Rightarrow>
               (let captionMatch = matchLabel ''Caption: '' text;
                    hashtagsMatch = matchLabel ''Hashtags: '' text;
                    caption = (case captionMatch of
                                 Some g \<Rightarrow> trim g | None \<Rightarrow> ''Check this out!'');
                    hashtags = (case hashtagsMatch of
                                  Some g \<Rightarrow> trim g | None \<Rightarrow> ''#fyp #racuntiktok'')
                in Inr \<lparr>caption = caption, hashtags = hashtags\<rparr>)))"

definition generateCaptionAndHashtags ::
  "string \<Rightarrow> string \<Rightarrow> provider_outcome \<Rightarrow> thrown + caption_data" where
  "generateCaptionAndHashtags productName productDescription r =
     (case generateCaptionAndHashtags_try r of
        Inl e \<Rightarrow> Inr \<lparr>caption = fallbackCaption productName, hashtags = fallbackHashtags\<rparr>
      | Inr c \<Rightarrow> Inr c)"

subsection \<open>extractImageUrl\<close>

text \<open>
  A JavaScript string is truthy when it is present and not empty. The function throws on
  a block reason, on missing parts, and when no part carries inline data; otherwise it
  returns the data URL of the first part with inline data (mime type, then bytes).
\<close>

definition truthy :: "string option \<Rightarrow> bool" where
  "truthy v = (case v of None \<Rightarrow> False | Some t \<Rightarrow> t \<noteq> [])"

definition extractImageUrl :: "response \<Rightarrow> thrown + string" where
  "extractImageUrl resp =
     (case (if truthy (blockReason resp) then blockReason resp else None) of
        Some reason \<Rightarrow> Inl (Error (''Request was blocked: '' @ reason))
      | None \<Rightarrow>
          (case parts resp of
             None \<Rightarrow> Inl (Error ''Invalid response from the model. No content parts found.'')
           | Some ps \<Rightarrow>
               (case List.find (\<lambda>p. inlineData p \<noteq> None) ps of
                  Some p \<Rightarrow>
                    (case inlineData p of
                       Some (mimeType, base64ImageBytes) \<Rightarrow>
                         Inr (''data:'' @ mimeType @ '';base64,'' @ base64ImageBytes)
                     | None \<Rightarrow> Inl (Error ''No image was generated in the response.''))
                | None \<Rightarrow>
                    (case List.find (\<lambda>p. truthy (partText p)) ps of
                       Some textPart \<Rightarrow>
                         Inl (Error ''The model returned a text response but no image.'')
                     | None \<Rightarrow> Inl (Error ''No image was generated in the response.'')))))"

subsection \<open>Promise.all\<close>

text \<open>
  A promise that settles is its settling time and its outcome. \<^verbatim>\<open>Promise.all\<close>
  rejects as soon as one input rejects, with that reason: the rejection with the least
  settling time wins (the lower index when two times are equal). When every input is
  fulfilled it is fulfilled, once the last one is, with the values in input order.
\<close>

type_synonym 'a promise = "nat \<times> (thrown + 'a)"

fun firstRejection :: "'a promise list \<Rightarrow> (nat \<times> thrown) option" where
  "firstRejection [] = None"
| "firstRejection ((t, Inr v) # ps) = firstRejection ps"
| "firstRejection ((t, Inl e) # ps) =
     (case firstRejection ps of
        None \<Rightarrow> Some (t, e)
      | Some (t', e') \<Rightarrow> if t' < t then Some (t', e') else Some (t, e))"

fun fulfilledValues :: "'a promise list \<Rightarrow> 'a list" where
  "fulfilledValues [] = []"
| "fulfilledValues ((t, Inr v) # ps) = v # fulfilledValues ps"
| "fulfilledValues ((t, Inl e) # ps) = fulfilledValues ps"

definition promiseAll :: "'a promise list \<Rightarrow> 'a list promise" where
  "promiseAll ps =
     (case firstRejection ps of
        Some (t, e) \<Rightarrow> (t, Inl e)
      | None \<Rightarrow> (fold max (map fst ps) 0, Inr (fulfilledValues ps)))"

subsection \<open>generateAdImages\<close>

text \<open>
  The three prompts are template literals over the product name and the ad script; only
  the provider reads their text, so a prompt is named by the frame it asks for. The
  provider is the environment: it answers each request with a promise.
  \<^verbatim>\<open>prompts.map(async ...)\<close> runs every callback up to its first
  \<^verbatim>\<open>await\<close>, so all requests are issued before any answer is looked at; each callback
  then passes its response through \<^verbatim>\<open>extractImageUrl\<close>.
\<close>

datatype ad_prompt = FirstFrame | SecondFrame | FinalFrame

definition prompts :: "ad_prompt list" where
  "prompts = [FirstFrame, SecondFrame, FinalFrame]"

definition imageGeneration :: "response promise \<Rightarrow> string promise" where
  "imageGeneration p =
     (case p of
        (t, Inl e) \<Rightarrow> (t, Inl e)
      | (t, Inr resp) \<Rightarrow> (t, extractImageUrl resp))"

record ad_images_run =
  requestsIssued :: "ad_prompt list"
  returned :: "thrown + string list"

definition generateAdImages :: "(ad_prompt \<Rightarrow> response promise) \<Rightarrow> ad_images_run" where
  "generateAdImages generateContent =
     (let imageGenerationPromises = map (\<lambda>prompt. imageGeneration (generateContent prompt)) prompts
      in \<lparr>requestsIssued = prompts,
          returned =
            (case snd (promiseAll imageGenerationPromises) of
               Inr urls \<Rightarrow> Inr urls
             | Inl (Error m) \<Rightarrow> Inl (Error m)
             | Inl (NonError v) \<Rightarrow>
                 Inl (Error ''An unknown error occurred while generating ad images.''))\<rparr>)"

section \<open>Audio post-processing (services/audioService)\<close>

subsection \<open>The sample rate of the mime type\<close>

text \<open>
  \<^verbatim>\<open>mimeType.match(/rate=(\d+)/)\<close>: the leftmost place where \<^verbatim>\<open>rate=\<close> is followed
  by at least one digit, with all the digits that follow; \<^verbatim>\<open>parseInt(_, 10)\<close> reads
  them as a decimal number.
\<close>

definition isDigit :: "char \<Rightarrow> bool" where
  "isDigit c = (let n = (of_char c :: nat) in 48 \<le> n \<and> n \<le> 57)"

fun matchRate :: "string \<Rightarrow> string option" where
  "matchRate [] = None"
| "matchRate (c # cs) =
     (let digits = takeWhile isDigit (drop 5 (c # cs))
      in if prefix ''rate='' (c # cs) \<and> digits \<noteq> [] then Some digits else matchRate cs)"

definition parseInt10 :: "string \<Rightarrow> nat" where
  "parseInt10 digits = foldl (\<lambda>n d. 10 * n + (of_char d - 48)) 0 digits"

subsection \<open>The WAV container\<close>

text \<open>
  \<^verbatim>\<open>DataView.setUint16\<close> and \<^verbatim>\<open>setUint32\<close> with the little-endian flag store the value
  modulo \<open>2^16\<close> and \<open>2^32\<close>, lowest byte first. Bytes are numbers below 256.
\<close>

definition setUint16 :: "nat \<Rightarrow> nat list" where
  "setUint16 n = [n mod 256, n div 256 mod 256]"

definition setUint32 :: "nat \<Rightarrow> nat list" where
  "setUint32 n = [n mod 256, n div 256 mod 256, n div 65536 mod 256, n div 16777216 mod 256]"

definition writeString :: "string \<Rightarrow> nat list" where
  "writeString str = map of_char str"

definition pcmToWav :: "nat list \<Rightarrow> nat \<Rightarrow> nat list" where
  "pcmToWav pcmData sampleRate =
     writeString ''RIFF'' @ setUint32 (36 + length pcmData) @ writeString ''WAVE'' @
     writeString ''fmt '' @ setUint32 16 @ setUint16 1 @ setUint16 1 @
     setUint32 sampleRate @ setUint32 (sampleRate * 2) @ setUint16 2 @ setUint16 16 @
     writeString ''data'' @ setUint32 (length pcmData) @ pcmData"

text \<open>
  A decoded buffer: channel count, sample rate and the samples of channel 0, which are
  the only ones the encoder reads. A sample is clamped to \<open>[-1, 1]\<close>, scaled by
  \<^verbatim>\<open>0x8000\<close> when negative and by \<^verbatim>\<open>0x7FFF\<close> otherwise, and stored by
  \<^verbatim>\<open>setInt16\<close>, which drops the fraction and writes two's complement.
\<close>

record audio_buffer =
  numberOfChannels :: nat
  sampleRate :: nat
  channelData :: "rat list"

definition bitDepth :: nat where
  "bitDepth = 16"

definition sampleToInt16 :: "rat \<Rightarrow> int" where
  "sampleToInt16 x =
     (let s = max (- 1) (min 1 x);
          s' = (if s < 0 then s * 32768 else s * 32767)
      in if s' < 0 then - \<lfloor>- s'\<rfloor> else \<lfloor>s'\<rfloor>)"

definition setInt16 :: "int \<Rightarrow> nat list" where
  "setInt16 v = setUint16 (nat (v mod 65536))"

definition audioBufferToWav :: "audio_buffer \<Rightarrow> nat list" where
  "audioBufferToWav buffer =
     (let numChannels = numberOfChannels buffer;
          result = channelData buffer;
          dataLength = length result * (bitDepth div 8)
      in writeString ''RIFF'' @ setUint32 (36 + dataLength) @ writeString ''WAVE'' @
         writeString ''fmt '' @ setUint32 16 @ setUint16 1 @ setUint16 numChannels @
         setUint32 (sampleRate buffer) @
         setUint32 (sampleRate buffer * numChannels * (bitDepth div 8)) @
         setUint16 (numChannels * (bitDepth div 8)) @ setUint16 bitDepth @
         writeString ''data'' @ setUint32 dataLength @
         concat (map (\<lambda>x. setInt16 (sampleToInt16 x)) result))"

subsection \<open>processAudio\<close>

text \<open>
  The audio graph is the chain of nodes from the buffer source to the destination of the
  offline context. The source node carries its playback rate (1 unless set), a gain node
  its gain (1 unless set), a compressor the five parameters the code sets at time 0.
\<close>

record compressor_settings =
  threshold :: rat
  knee :: rat
  ratio :: rat
  attack :: rat
  release :: rat

datatype audio_node =
  BufferSource rat
| DynamicsCompressor compressor_settings
| Gain rat
| Destination

definition processAudio_graph :: "string \<Rightarrow> string \<Rightarrow> audio_node list" where
  "processAudio_graph style voiceName =
     (let playbackRate = (if voiceName = ''leda'' then 13 / 10 else 1);
          currentNode = [BufferSource playbackRate];
          currentNode =
            (if style = ''berbisik''
             then currentNode @
                    [DynamicsCompressor
                       \<lparr>threshold = - 40, knee = 30, ratio = 12, attack = 3 / 1000,
                        release = 1 / 4\<rparr>]
             else currentNode);
          gain = (if style = ''teriak'' then 3 / 2
                  else if style = ''berbisik'' then 5 / 2 else 1)
      in currentNode @ [Gain gain] @ [Destination])"

text \<open>
  The browser is the environment: \<^verbatim>\<open>atob\<close> decodes the base64 text or throws,
  \<^verbatim>\<open>decodeAudioData\<close> decodes the WAV bytes or rejects, and the offline context
  renders the graph over the decoded buffer. The function returns the object URL of the
  final WAV blob, here the blob's bytes, next to the graph it rendered.
\<close>

record audio_env =
  atob :: "string \<Rightarrow> thrown + nat list"
  decodeAudioData :: "nat list \<Rightarrow> thrown + audio_buffer"
  startRendering :: "audio_node list \<Rightarrow> audio_buffer \<Rightarrow> thrown + audio_buffer"

record processed_audio =
  renderedGraph :: "audio_node list"
  finalWavBlob :: "nat list"

definition processAudio ::
  "audio_env \<Rightarrow> string \<Rightarrow> string \<Rightarrow> string \<Rightarrow> string \<Rightarrow> thrown + processed_audio" where
  "processAudio env base64Data mimeType style voiceName =
     (case matchRate mimeType of
        None \<Rightarrow> Inl (Error ''Sample rate not found in mimeType.'')
      | Some digits \<Rightarrow>
          (case atob env base64Data of
             Inl e \<Rightarrow> Inl e
           | Inr pcmData \<Rightarrow>
               (case decodeAudioData env (pcmToWav pcmData (parseInt10 digits)) of
                  Inl e \<Rightarrow> Inl e
                | Inr initialAudioBuffer \<Rightarrow>
                    (let graph = processAudio_graph style voiceName
                     in case startRendering env graph initialAudioBuffer of
                          Inl e \<Rightarrow> Inl e
                        | Inr renderedBuffer \<Rightarrow>
                            Inr \<lparr>renderedGraph = graph,
                                 finalWavBlob = audioBufferToWav renderedBuffer\<rparr>))))"


section \<open>Wizard state and its handlers (App)\<close>

text \<open>
  A JavaScript array of strings: an element is a string or \<^verbatim>\<open>undefined\<close>. Reading
  past the end gives \<^verbatim>\<open>undefined\<close>; writing past the end extends the array with
  holes.
\<close>

type_synonym js_array = "string option list"

definition arrayGet :: "js_array \<Rightarrow> nat \<Rightarrow> string option" where
  "arrayGet xs i = (if i < length xs then xs ! i else None)"

definition arraySet :: "js_array \<Rightarrow> nat \<Rightarrow> string \<Rightarrow> js_array" where
  "arraySet xs i v =
     (if i < length xs then xs[i := Some v]
      else xs @ replicate (i - length xs) None @ [Some v])"

text \<open>
  \<^verbatim>\<open>imageUrlToImageFile\<close> splits a data URL at its commas and reads the mime type
  with \<^verbatim>\<open>/:(.*?);/\<close>: from the leftmost colon that a semicolon follows on the same
  line, the text up to the first such semicolon.
\<close>

fun split :: "char \<Rightarrow> string \<Rightarrow> string list" where
  "split sep [] = [[]]"
| "split sep (c # cs) =
     (if c = sep then [] # split sep cs
      else (case split sep cs of
              [] \<Rightarrow> [[c]]
            | p # ps \<Rightarrow> (c # p) # ps))"

fun matchMime :: "string \<Rightarrow> string option" where
  "matchMime [] = None"
| "matchMime (c # cs) =
     (if c = CHR '':''
      then (let seg = takeWhile (\<lambda>x. x \<noteq> CHR '';'' \<and> \<not> isLineTerminator x) cs
            in case drop (length seg) cs of
                 [] \<Rightarrow> matchMime cs
               | d # rest \<Rightarrow> if d = CHR '';'' then Some seg else matchMime cs)
      else matchMime cs)"

record image_file =
  imageData :: string
  mimeType :: string
  previewUrl :: string

definition imageUrlToImageFile :: "string \<Rightarrow> thrown + image_file" where
  "imageUrlToImageFile imageUrl =
     (case split CHR '','' imageUrl of
        [p0, p1] \<Rightarrow>
          (case matchMime p0 of
             None \<Rightarrow> Inl (Error ''Could not determine mime type'')
           | Some m \<Rightarrow>
               if m = [] then Inl (Error ''Could not determine mime type'')
               else Inr \<lparr>imageData = p1, mimeType = m, previewUrl = imageUrl\<rparr>)
      | _ \<Rightarrow> Inl (Error ''Invalid data URL''))"

text \<open>
  The state the steps share lives in the App component; each step adds an error line of
  its own, and the last step a loading flag and the caption. Spinner messages and the
  loading flags of steps 3 and 4 only drive the display and are left out.
\<close>

record ads_copy =
  script :: string
  audioUrl :: "string option"
  voiceGender :: string
  voiceStyle :: string

record studio =
  adImages :: js_array
  adVideos :: js_array

record final_video =
  url :: "string option"
  extension :: string

record wizard =
  adsCopy :: ads_copy
  studio :: studio
  finalVideo :: final_video
  error :: "string option"
  isLoading :: bool
  captionData :: "caption_data option"

text \<open>\<^verbatim>\<open>err instanceof Error ? err.message : fallback\<close>\<close>

definition errorMessage :: "thrown \<Rightarrow> string \<Rightarrow> string" where
  "errorMessage err fallback = (case err of Error m \<Rightarrow> m | NonError v \<Rightarrow> fallback)"

subsection \<open>Step 3: script and audio\<close>

text \<open>Each handler takes the answer of the gateway call it awaits.\<close>

definition handleGenerateScript :: "thrown + string \<Rightarrow> wizard \<Rightarrow> wizard" where
  "handleGenerateScript generateAdsCopy w =
     (let w = w\<lparr>error := None\<rparr>;
          w = w\<lparr>adsCopy := (adsCopy w)\<lparr>script := [], audioUrl := None\<rparr>\<rparr>
      in case generateAdsCopy of
           Inr script' \<Rightarrow> w\<lparr>adsCopy := (adsCopy w)\<lparr>script := script'\<rparr>\<rparr>
         | Inl err \<Rightarrow> w\<lparr>error := Some (errorMessage err ''Gagal membuat naskah.'')\<rparr>)"

definition handleGenerateAudio :: "thrown + string \<Rightarrow> wizard \<Rightarrow> wizard" where
  "handleGenerateAudio generateSpeech w =
     (if script (adsCopy w) = [] then w\<lparr>error := Some ''Naskah tidak boleh kosong.''\<rparr>
      else
        (let w = w\<lparr>error := None\<rparr>;
             w = w\<lparr>adsCopy := (adsCopy w)\<lparr>audioUrl := None\<rparr>\<rparr>
         in case generateSpeech of
              Inr audioUrl' \<Rightarrow> w\<lparr>adsCopy := (adsCopy w)\<lparr>audioUrl := Some audioUrl'\<rparr>\<rparr>
            | Inl err \<Rightarrow> w\<lparr>error := Some (errorMessage err ''Gagal membuat audio.'')\<rparr>))"

subsection \<open>Step 4: scene images and scene videos\<close>

definition handleGenerateImages :: "thrown + string list \<Rightarrow> wizard \<Rightarrow> wizard" where
  "handleGenerateImages generateAdImages' w =
     (let w = w\<lparr>error := None\<rparr>;
          w = w\<lparr>studio := \<lparr>adImages = [], adVideos = []\<rparr>\<rparr>
      in case generateAdImages' of
           Inr images \<Rightarrow> w\<lparr>studio := (studio w)\<lparr>adImages := map Some images\<rparr>\<rparr>
         | Inl err \<Rightarrow> w\<lparr>error := Some (errorMessage err ''Gagal membuat gambar.'')\<rparr>)"

definition handleRegenerateImage :: "nat \<Rightarrow> thrown + string \<Rightarrow> wizard \<Rightarrow> wizard" where
  "handleRegenerateImage indexToRegen regenerateAdImage w =
     (let w = w\<lparr>error := None\<rparr>
      in case regenerateAdImage of
           Inr newImageUrl \<Rightarrow>
             (let newAdImages = arraySet (adImages (studio w)) indexToRegen newImageUrl
              in w\<lparr>studio := (studio w)\<lparr>adImages := newAdImages, adVideos := []\<rparr>\<rparr>)
         | Inl err \<Rightarrow> w\<lparr>error := Some (errorMessage err ''Gagal membuat ulang gambar.'')\<rparr>)"

text \<open>
  Video generation is the environment: it answers a prompt (one of three, by index) and
  an image file. A scene URL that is \<^verbatim>\<open>undefined\<close> makes
  \<^verbatim>\<open>imageUrlToImageFile\<close> throw a TypeError.
\<close>

definition sceneImageFile :: "js_array \<Rightarrow> nat \<Rightarrow> thrown + image_file" where
  "sceneImageFile images i =
     (case arrayGet images i of
        None \<Rightarrow> Inl (Error ''Cannot read properties of undefined (reading 'split')'')
      | Some imageUrl \<Rightarrow> imageUrlToImageFile imageUrl)"

fun generateVideos_loop ::
  "(nat \<Rightarrow> image_file \<Rightarrow> thrown + string) \<Rightarrow> js_array \<Rightarrow> nat \<Rightarrow> nat \<Rightarrow> string list \<Rightarrow>
   wizard \<Rightarrow> wizard" where
  "generateVideos_loop generateVideo images 0 i generatedVideos w = w"
| "generateVideos_loop generateVideo images (Suc todo) i generatedVideos w =
     (case sceneImageFile images i of
        Inl err \<Rightarrow> w\<lparr>error := Some (errorMessage err ''Gagal membuat video.'')\<rparr>
      | Inr imageFile \<Rightarrow>
          (case generateVideo (i mod 3) imageFile of
             Inl err \<Rightarrow> w\<lparr>error := Some (errorMessage err ''Gagal membuat video.'')\<rparr>
           | Inr videoUrl \<Rightarrow>
               (let generatedVideos = generatedVideos @ [videoUrl]
                in generateVideos_loop generateVideo images todo (Suc i) generatedVideos
                     (w\<lparr>studio := (studio w)\<lparr>adVideos := map Some generatedVideos\<rparr>\<rparr>))))"

definition handleGenerateVideos ::
  "(nat \<Rightarrow> image_file \<Rightarrow> thrown + string) \<Rightarrow> wizard \<Rightarrow> wizard" where
  "handleGenerateVideos generateVideo w =
     (if length (adImages (studio w)) = 0 then w\<lparr>error := Some ''Buat gambar terlebih dahulu.''\<rparr>
      else
        (let images = adImages (studio w);
             w = w\<lparr>error := None\<rparr>;
             w = w\<lparr>studio := (studio w)\<lparr>adVideos := []\<rparr>\<rparr>
         in generateVideos_loop generateVideo images (length images) 0 [] w))"

definition handleRegenerateVideo ::
  "nat \<Rightarrow> (nat \<Rightarrow> image_file \<Rightarrow> thrown + string) \<Rightarrow> wizard \<Rightarrow> wizard" where
  "handleRegenerateVideo indexToRegen generateVideo w =
     (let w = w\<lparr>error := None\<rparr>
      in case sceneImageFile (adImages (studio w)) indexToRegen of
           Inl err \<Rightarrow> w\<lparr>error := Some (errorMessage err ''Gagal membuat ulang video.'')\<rparr>
         | Inr imageFile \<Rightarrow>
             (case generateVideo (indexToRegen mod 3) imageFile of
                Inl err \<Rightarrow> w\<lparr>error := Some (errorMessage err ''Gagal membuat ulang video.'')\<rparr>
              | Inr videoUrl \<Rightarrow>
                  (let newAdVideos = arraySet (adVideos (studio w)) indexToRegen videoUrl
                   in w\<lparr>studio := (studio w)\<lparr>adVideos := newAdVideos\<rparr>\<rparr>)))"

subsection \<open>Step 5: composing on entry\<close>

text \<open>
  \<^verbatim>\<open>handleCombine\<close> runs once when the last step mounts. It takes the outcome of the
  compositor (object URL and extension, or the rejection) and the answer of the caption
  provider, which is only asked after a successful composition.
\<close>

definition handleCombine ::
  "thrown + (string \<times> string) \<Rightarrow> string \<Rightarrow> string \<Rightarrow> provider_outcome \<Rightarrow> wizard \<Rightarrow> wizard" where
  "handleCombine combined productName productDescription captionAnswer w =
     (if truthy (url (finalVideo w)) \<or> isLoading w then w
      else
        (let w = w\<lparr>isLoading := True, error := None\<rparr>;
             w = w\<lparr>finalVideo := \<lparr>url = None, extension = ''mp4''\<rparr>\<rparr>
         in case combined of
              Inl err \<Rightarrow>
                w\<lparr>error := Some (errorMessage err ''Gagal menggabungkan video dan audio.''),
                  isLoading := False\<rparr>
            | Inr (u, ext) \<Rightarrow>
                (let w = w\<lparr>finalVideo := \<lparr>url = Some u, extension = ext\<rparr>\<rparr>
                 in case generateCaptionAndHashtags productName productDescription captionAnswer of
                      Inr captions \<Rightarrow> w\<lparr>captionData := Some captions, isLoading := False\<rparr>
                    | Inl err \<Rightarrow>
                        w\<lparr>error := Some (errorMessage err ''Gagal menggabungkan video dan audio.''),
                          isLoading := False\<rparr>)))"

section \<open>Sequential Compositor (combineVideosAndAudio)\<close>

subsection \<open>State of one composition\<close>

text \<open>
  Time is counted in frame intervals (one thirtieth of a second at the 30 frames per
  second the canvas is captured at). A video element has a source, a duration, a current
  time, is playing or not, and has an \<^verbatim>\<open>onended\<close> handler or not. The frame it shows is
  the one at its current time; at the end of the clip that is the final frame.
\<close>

record video =
  src :: string
  duration :: nat
  currentTime :: nat
  playing :: bool
  onended :: bool

datatype recorder_state = Inactive | Recording

text \<open>
  What the recorder promise resolves with: the blob behind the object URL (the sizes of
  its chunks and its type) and the extension.
\<close>

record composed =
  blobParts :: "nat list"
  blobType :: string
  fileExtension :: string

datatype settlement = Pending | Resolved composed | Rejected thrown

text \<open>
  The canvas holds nothing until the first draw; after a draw it holds a frame of a
  clip, named by the clip's index and the clip time of the frame.
\<close>

record compositor =
  videos :: "video list"
  currentVideoIndex :: nat
  recorderState :: recorder_state
  stopQueued :: bool
  recorded :: nat
  chunks :: "nat list"
  canvasFrame :: "(nat \<times> nat) option"
  animationFrame :: bool
  audioCtxClosed :: bool
  audioDuration :: nat
  audioTime :: nat
  audioPlaying :: bool
  supportedMimeType :: string
  recorderPromise :: settlement

subsection \<open>The handlers the function installs\<close>

text \<open>A promise settles once: later calls of its resolve and reject do nothing.\<close>

definition settle :: "settlement \<Rightarrow> compositor \<Rightarrow> compositor" where
  "settle r c = (if recorderPromise c = Pending then c\<lparr>recorderPromise := r\<rparr> else c)"

definition fileExtensionOf :: "string \<Rightarrow> string" where
  "fileExtensionOf mime = (if sublist ''webm'' mime then ''webm'' else ''mp4'')"

definition recorder_ondataavailable :: "nat \<Rightarrow> compositor \<Rightarrow> compositor" where
  "recorder_ondataavailable dataSize c =
     (if dataSize > 0 then c\<lparr>chunks := chunks c @ [dataSize]\<rparr> else c)"

definition recorder_onstop :: "compositor \<Rightarrow> compositor" where
  "recorder_onstop c =
     (let c = c\<lparr>animationFrame := False\<rparr>;
          c = c\<lparr>audioCtxClosed := True\<rparr>
      in if length (chunks c) = 0
         then settle (Rejected (Error
                ''Recording failed, resulting in an empty file. This can be a browser issue.'')) c
         else settle (Resolved \<lparr>blobParts = chunks c, blobType = supportedMimeType c,
                                fileExtension = fileExtensionOf (supportedMimeType c)\<rparr>) c)"

definition recorder_onerror :: "compositor \<Rightarrow> compositor" where
  "recorder_onerror c =
     (let c = c\<lparr>animationFrame := False\<rparr>;
          c = c\<lparr>audioCtxClosed := True\<rparr>
      in settle (Rejected (Error ''A fatal error occurred during video recording.'')) c)"

text \<open>
  \<^verbatim>\<open>recorder.stop()\<close>: the recorder becomes inactive at once, and the browser queues
  the last \<^verbatim>\<open>dataavailable\<close> event and the \<^verbatim>\<open>stop\<close> event. Both callers check the
  state first.
\<close>

definition recorder_stop :: "compositor \<Rightarrow> compositor" where
  "recorder_stop c = c\<lparr>recorderState := Inactive, stopQueued := True\<rparr>"

definition audioSource_onended :: "compositor \<Rightarrow> compositor" where
  "audioSource_onended c = (if recorderState c = Recording then recorder_stop c else c)"

definition playNextVideo :: "compositor \<Rightarrow> compositor" where
  "playNextVideo c =
     (if currentVideoIndex c \<ge> length (videos c) then c
      else
        (let i = currentVideoIndex c;
             video = videos c ! i;
             video = video\<lparr>onended := True\<rparr>;
             video = video\<lparr>currentTime := 0\<rparr>;
             video = video\<lparr>playing := True\<rparr>
         in c\<lparr>videos := (videos c)[i := video]\<rparr>))"

definition video_onended :: "compositor \<Rightarrow> compositor" where
  "video_onended c = playNextVideo (c\<lparr>currentVideoIndex := currentVideoIndex c + 1\<rparr>)"

definition play_catch :: "compositor \<Rightarrow> compositor" where
  "play_catch c = (if recorderState c = Recording then recorder_stop c else c)"

text \<open>
  \<^verbatim>\<open>videos[currentVideoIndex] || videos[videos.length - 1]\<close>: the active clip, or the
  last clip when the index is past the end; with no clip at all both are
  \<^verbatim>\<open>undefined\<close> and nothing is drawn. The loop then asks for the next frame.
\<close>

definition videoToDraw :: "compositor \<Rightarrow> nat option" where
  "videoToDraw c =
     (if currentVideoIndex c < length (videos c) then Some (currentVideoIndex c)
      else if length (videos c) > 0 then Some (length (videos c) - 1)
      else None)"

definition renderLoop :: "compositor \<Rightarrow> compositor" where
  "renderLoop c =
     (let c = (case videoToDraw c of
                 Some i \<Rightarrow> c\<lparr>canvasFrame := Some (i, currentTime (videos c ! i))\<rparr>
               | None \<Rightarrow> c)
      in c\<lparr>animationFrame := True\<rparr>)"

subsection \<open>Starting a composition\<close>

text \<open>
  The platform is the environment of one call: whether the canvas gives a 2D context,
  what fetching and decoding the narration yields (its length in frame intervals, or a
  rejection) and when, which of \<^verbatim>\<open>loadedmetadata\<close> (with the clip's duration) and
  \<^verbatim>\<open>error\<close> a video element fires first and when, and which recording formats
  \<^verbatim>\<open>MediaRecorder.isTypeSupported\<close> accepts.
\<close>

datatype load_event = LoadedMetadata nat | ErrorEvent string

record platform =
  getContext :: bool
  fetchDecodeAudio :: "string \<Rightarrow> nat promise"
  loadVideo :: "string \<Rightarrow> nat \<times> load_event"
  isTypeSupported :: "string \<Rightarrow> bool"

text \<open>The work the function has done so far, in order, is logged next to its result.\<close>

datatype work =
  GetCanvasContext
| NewAudioContext
| DecodeAudio string
| LoadVideo string
| CloseAudioContext
| NewMediaRecorder string
| RecorderStart
| AudioSourceStart

record composition =
  workDone :: "work list"
  started :: "thrown + compositor"

definition mimeTypesToTry :: "string list" where
  "mimeTypesToTry =
     [''video/mp4; codecs='' @ [CHR 0x22] @ ''avc1.42E01E, mp4a.40.2'' @ [CHR 0x22],
      ''video/mp4'',
      ''video/webm; codecs='' @ [CHR 0x22] @ ''vp8, opus'' @ [CHR 0x22],
      ''video/webm'']"

definition videoElement :: "platform \<Rightarrow> string \<Rightarrow> video promise" where
  "videoElement p u =
     (case loadVideo p u of
        (t, LoadedMetadata d) \<Rightarrow>
          (t, Inr \<lparr>src = u, duration = d, currentTime = 0, playing = False, onended = False\<rparr>)
      | (t, ErrorEvent e) \<Rightarrow>
          (t, Inl (Error (''Failed to load video. Please try again. '' @ e))))"

text \<open>\<^verbatim>\<open>Promise.all\<close> of the two-element array of the narration and the clips.\<close>

definition promiseAll2 :: "'a promise \<Rightarrow> 'b promise \<Rightarrow> ('a \<times> 'b) promise" where
  "promiseAll2 pa pb =
     (case (pa, pb) of
        ((ta, Inr a), (tb, Inr b)) \<Rightarrow> (max ta tb, Inr (a, b))
      | ((ta, Inl e), (tb, Inr b)) \<Rightarrow> (ta, Inl e)
      | ((ta, Inr a), (tb, Inl e)) \<Rightarrow> (tb, Inl e)
      | ((ta, Inl ea), (tb, Inl eb)) \<Rightarrow> if tb < ta then (tb, Inl eb) else (ta, Inl ea))"

definition combineVideosAndAudio :: "platform \<Rightarrow> string list \<Rightarrow> string \<Rightarrow> composition" where
  "combineVideosAndAudio p videoUrls audioUrl' =
     (if \<not> getContext p
      then \<lparr>workDone = [GetCanvasContext],
            started = Inl (Error ''Could not get canvas context'')\<rparr>
      else
        (let done = [GetCanvasContext, NewAudioContext, DecodeAudio audioUrl'] @
                    map LoadVideo videoUrls
         in case snd (promiseAll2 (fetchDecodeAudio p audioUrl')
                        (promiseAll (map (videoElement p) videoUrls))) of
              Inl e \<Rightarrow> \<lparr>workDone = done, started = Inl e\<rparr>
            | Inr (audioBuffer, videos') \<Rightarrow>
                (case List.find (isTypeSupported p) mimeTypesToTry of
                   None \<Rightarrow>
                     \<lparr>workDone = done @ [CloseAudioContext],
                      started = Inl (Error
                        ''Your browser does not support the required video recording formats.'')\<rparr>
                 | Some mime \<Rightarrow>
                     (let c = \<lparr>videos = videos', currentVideoIndex = 0,
                               recorderState = Recording, stopQueued = False, recorded = 0,
                               chunks = [], canvasFrame = None, animationFrame = False,
                               audioCtxClosed = False, audioDuration = audioBuffer,
                               audioTime = 0, audioPlaying = True,
                               supportedMimeType = mime, recorderPromise = Pending\<rparr>;
                          c = playNextVideo c;
                          c = c\<lparr>animationFrame := True\<rparr>
                      in \<lparr>workDone = done @ [NewMediaRecorder mime, RecorderStart,
                                               AudioSourceStart],
                          started = Inr c\<rparr>))))"

subsection \<open>The browser's events\<close>

text \<open>
  One tick is one frame interval. In it the recorder, while recording, captures the
  interval; the narration source, while its context is open, plays on and fires
  \<^verbatim>\<open>onended\<close> when its buffer is used up; every video element that is playing moves on
  by one frame and, on reaching its duration, stops and fires \<^verbatim>\<open>onended\<close>; and the
  pending animation frame callback, if any, runs.
\<close>

definition audioTick :: "compositor \<Rightarrow> compositor" where
  "audioTick c =
     (if audioPlaying c \<and> \<not> audioCtxClosed c
      then (if audioTime c + 1 \<ge> audioDuration c
            then audioSource_onended (c\<lparr>audioTime := audioDuration c, audioPlaying := False\<rparr>)
            else c\<lparr>audioTime := audioTime c + 1\<rparr>)
      else c)"

definition advance :: "video \<Rightarrow> video" where
  "advance v =
     (if playing v
      then (let t = min (currentTime v + 1) (duration v)
            in v\<lparr>currentTime := t, playing := t < duration v\<rparr>)
      else v)"

definition videoTick :: "nat \<Rightarrow> compositor \<Rightarrow> compositor" where
  "videoTick i c =
     (let v = advance (videos c ! i);
          c' = c\<lparr>videos := (videos c)[i := v]\<rparr>
      in if playing (videos c ! i) \<and> \<not> playing v \<and> onended v then video_onended c' else c')"

definition tick :: "compositor \<Rightarrow> compositor" where
  "tick c =
     (let c = (if recorderState c = Recording then c\<lparr>recorded := recorded c + 1\<rparr> else c);
          c = audioTick c;
          playingNow = filter (\<lambda>i. playing (videos c ! i)) [0..<length (videos c)];
          c = fold videoTick playingNow c
      in if animationFrame c then renderLoop c else c)"

text \<open>
  The other events come from outside the clocks. A \<^verbatim>\<open>play()\<close> promise of a playing
  element may reject: the element does not play and the \<^verbatim>\<open>catch\<close> handler runs. A
  recording recorder may report a fault: it becomes inactive, its \<^verbatim>\<open>onerror\<close> handler
  runs, and its last events are queued. Once a stop is queued the browser delivers
  \<^verbatim>\<open>dataavailable\<close> with the size of the data and then \<^verbatim>\<open>stop\<close>; no time slice is
  given to \<^verbatim>\<open>recorder.start()\<close>, so data arrives only then.
\<close>

datatype event = Tick | PlayRejected nat | RecorderError | DataAvailable nat | RecorderStop

fun dispatch :: "event \<Rightarrow> compositor \<Rightarrow> compositor" where
  "dispatch Tick c = tick c"
| "dispatch (PlayRejected i) c =
     (if i < length (videos c) \<and> playing (videos c ! i)
      then play_catch (c\<lparr>videos := (videos c)[i := (videos c ! i)\<lparr>playing := False\<rparr>]\<rparr>)
      else c)"
| "dispatch RecorderError c =
     (if recorderState c = Recording
      then recorder_onerror (c\<lparr>recorderState := Inactive, stopQueued := True\<rparr>)
      else c)"
| "dispatch (DataAvailable n) c = (if stopQueued c then recorder_ondataavailable n c else c)"
| "dispatch RecorderStop c = (if stopQueued c then recorder_onstop (c\<lparr>stopQueued := False\<rparr>) else c)"

definition run :: "event list \<Rightarrow> compositor \<Rightarrow> compositor" where
  "run es c = fold dispatch es c"

definition ticks :: "event list \<Rightarrow> nat" where
  "ticks es = length (filter (\<lambda>e. e = Tick) es)"

section \<open>Example inputs\<close>

text \<open>
  A wizard at the end of a session: script and narration made, three scene images and
  three scene videos, and a composed final video.
\<close>

definition exampleWizard :: wizard where
  "exampleWizard =
     \<lparr>adsCopy = \<lparr>script = ''Halo'', audioUrl = Some ''blob:audio'',
                 voiceGender = ''female'', voiceStyle = ''santai''\<rparr>,
      studio = \<lparr>adImages = [Some ''data:image/png;base64,AA'',
                            Some ''data:image/png;base64,BB'',
                            Some ''data:image/png;base64,CC''],
                adVideos = [Some ''blob:v1'', Some ''blob:v2'', Some ''blob:v3'']\<rparr>,
      finalVideo = \<lparr>url = Some ''blob:final'', extension = ''mp4''\<rparr>,
      error = None, isLoading = False, captionData = None\<rparr>"

text \<open>
  A platform that records WebM only, with a narration of twelve frame intervals and
  three clips of two, three and four intervals; any other clip URL fails to load.
\<close>

definition examplePlatform :: platform where
  "examplePlatform =
     \<lparr>getContext = True,
      fetchDecodeAudio = (\<lambda>u. (1, Inr 12)),
      loadVideo = (\<lambda>u. if u = ''blob:v1'' then (1, LoadedMetadata 2)
                        else if u = ''blob:v2'' then (2, LoadedMetadata 3)
                        else if u = ''blob:v3'' then (3, LoadedMetadata 4)
                        else (0, ErrorEvent ''[object Event]'')),
      isTypeSupported = (\<lambda>m. m = ''video/webm'')\<rparr>"

definition exampleClips :: "string list" where
  "exampleClips = [''blob:v1'', ''blob:v2'', ''blob:v3'']"

text \<open>The composition the example platform starts for the example clips.\<close>

definition exampleStart :: compositor where
  "exampleStart =
     \<lparr>videos =
        [\<lparr>src = ''blob:v1'', duration = 2, currentTime = 0, playing = True, onended = True\<rparr>,
         \<lparr>src = ''blob:v2'', duration = 3, currentTime = 0, playing = False, onended = False\<rparr>,
         \<lparr>src = ''blob:v3'', duration = 4, currentTime = 0, playing = False, onended = False\<rparr>],
      currentVideoIndex = 0, recorderState = Recording, stopQueued = False, recorded = 0,
      chunks = [], canvasFrame = None, animationFrame = True, audioCtxClosed = False,
      audioDuration = 12, audioTime = 0, audioPlaying = True,
      supportedMimeType = ''video/webm'', recorderPromise = Pending\<rparr>"

section \<open>Invariants of a composition\<close>

text \<open>
  After \<open>n\<close> ticks without a play rejection or a recorder fault, either the narration is
  still playing, the recorder is recording and both have run for \<open>n\<close> intervals, or the
  narration has ended, the recorder is inactive and holds as many intervals as the
  narration is long (one interval for an empty narration).
\<close>

definition clock_ok :: "nat \<Rightarrow> compositor \<Rightarrow> bool" where
  "clock_ok n c =
     (if audioPlaying c
      then recorderState c = Recording \<and> \<not> stopQueued c \<and> \<not> audioCtxClosed c \<and>
           recorded c = n \<and> audioTime c = n \<and> n < max 1 (audioDuration c)
      else recorderState c = Inactive \<and> recorded c = max 1 (audioDuration c) \<and>
           max 1 (audioDuration c) \<le> n)"

text \<open>
  Only the active clip plays, and every clip before the active one has reached its end.
\<close>

definition played_ok :: "compositor \<Rightarrow> bool" where
  "played_ok c =
     (\<forall>i < length (videos c).
        (playing (videos c ! i) \<longrightarrow> i = currentVideoIndex c) \<and>
        (i < currentVideoIndex c \<longrightarrow> currentTime (videos c ! i) = duration (videos c ! i)))"

text \<open>
  Without a recorder fault and without data, no chunk is stored and the promise is
  pending or rejected for the empty recording.
\<close>

definition emptyRecording :: thrown where
  "emptyRecording =
     Error ''Recording failed, resulting in an empty file. This can be a browser issue.''"

definition empty_ok :: "compositor \<Rightarrow> bool" where
  "empty_ok c =
     (chunks c = [] \<and>
      (recorderPromise c = Pending \<or> recorderPromise c = Rejected emptyRecording))"

section \<open>Properties of the gateway\<close>

subsection \<open>Label matching\<close>

lemma matchLabel_None_iff: "matchLabel label hay = None \<longleftrightarrow> \<not> sublist label hay"
  by (induction hay) (auto simp: sublist_Cons_right)

lemma matchLabel_absent:
  assumes "sublist l label" and "\<not> sublist l hay"
  shows "matchLabel label hay = None"
  using assms by (metis matchLabel_None_iff sublist_order.order_trans)

subsection \<open>The attribute classifier\<close>

text \<open>
  C8. The classifier always returns a label and never an error. It returns
  \<^verbatim>\<open>male\<close> exactly when the provider answered with a text whose trimmed, lowercased
  value is \<^verbatim>\<open>male\<close>; in every other case, a provider error among them, it returns
  the default \<^verbatim>\<open>female\<close>.
\<close>

theorem determineModelGender_label:
  "(determineModelGender r = Inr ''male'')
     = (\<exists>resp t. r = Inr resp \<and> responseText resp = Some t \<and> toLowerCase (trim t) = ''male'')
   \<and> (determineModelGender r = Inr ''female'')
     = (\<not> (\<exists>resp t. r = Inr resp \<and> responseText resp = Some t \<and>
                     toLowerCase (trim t) = ''male''))
   \<and> (\<forall>e. determineModelGender (Inl e) = Inr ''female'')"
  by (auto simp: determineModelGender_def determineModelGender_try_def Let_def
           split: sum.splits option.splits)

theorem determineModelGender_label_witness:
  "determineModelGender
     (Inr \<lparr>responseText = Some '' Male '', blockReason = None, parts = None\<rparr>) = Inr ''male''
   \<and> determineModelGender
     (Inr \<lparr>responseText = Some ''male.'', blockReason = None, parts = None\<rparr>) = Inr ''female''
   \<and> determineModelGender (Inl (NonError ''503'')) = Inr ''female''"
proof -
  have a: "toLowerCase (trim '' Male '') = ''male''" by code_simp
  have b: "toLowerCase (trim ''male.'') \<noteq> ''male''" by code_simp
  show ?thesis
    using determineModelGender_label
            [of "Inr \<lparr>responseText = Some '' Male '', blockReason = None, parts = None\<rparr>"]
          determineModelGender_label
            [of "Inr \<lparr>responseText = Some ''male.'', blockReason = None, parts = None\<rparr>"]
          determineModelGender_label [of "Inl (NonError ''503'')"] a b
    by simp
qed

subsection \<open>Caption and hashtags\<close>

text \<open>
  C10. Caption generation is total: for every provider outcome it returns a caption and
  hashtag pair and never an error. On a provider error the pair is the fixed fallback
  (the Indonesian caption around the product name, and five fixed hashtags). When the
  provider's text has no \<^verbatim>\<open>Caption:\<close> the caption is \<^verbatim>\<open>Check this out!\<close>, and when it
  has no \<^verbatim>\<open>Hashtags:\<close> the hashtags are \<^verbatim>\<open>#fyp #racuntiktok\<close>.
\<close>

theorem generateCaptionAndHashtags_total:
  "(\<exists>c. generateCaptionAndHashtags productName productDescription r = Inr c)
   \<and> (\<forall>e. generateCaptionAndHashtags productName productDescription (Inl e)
          = Inr \<lparr>caption = ''Wajib coba '' @ productName @ ''! '' @
                             [CHR 0xC3, CHR 0xA2, CHR 0xC5, CHR 0x93, CHR 0xC2, CHR 0xA8],
                 hashtags = ''#fyp #racuntiktok #productreview #xyzbca #tiktokmademebuyit''\<rparr>)
   \<and> (\<forall>resp t c. r = Inr resp \<and> responseText resp = Some t \<and>
          generateCaptionAndHashtags productName productDescription r = Inr c \<longrightarrow>
          (\<not> sublist ''Caption:'' t \<longrightarrow> caption c = ''Check this out!'') \<and>
          (\<not> sublist ''Hashtags:'' t \<longrightarrow> hashtags c = ''#fyp #racuntiktok''))"
proof (intro conjI allI impI)
  show "\<exists>c. generateCaptionAndHashtags productName productDescription r = Inr c"
    by (auto simp: generateCaptionAndHashtags_def split: sum.splits)
next
  fix e
  show "generateCaptionAndHashtags productName productDescription (Inl e)
          = Inr \<lparr>caption = ''Wajib coba '' @ productName @ ''! '' @
                             [CHR 0xC3, CHR 0xA2, CHR 0xC5, CHR 0x93, CHR 0xC2, CHR 0xA8],
                 hashtags = ''#fyp #racuntiktok #productreview #xyzbca #tiktokmademebuyit''\<rparr>"
    by (simp add: generateCaptionAndHashtags_def generateCaptionAndHashtags_try_def
                  fallbackCaption_def fallbackHashtags_def)
next
  fix resp t c
  assume h: "r = Inr resp \<and> responseText resp = Some t \<and>
          generateCaptionAndHashtags productName productDescription r = Inr c"
    and n: "\<not> sublist ''Caption:'' t"
  have "sublist ''Caption:'' ''Caption: ''" by code_simp
  then have "matchLabel ''Caption: '' t = None" using n by (rule matchLabel_absent)
  with h show "caption c = ''Check this out!''"
    by (auto simp: generateCaptionAndHashtags_def generateCaptionAndHashtags_try_def Let_def)
next
  fix resp t c
  assume h: "r = Inr resp \<and> responseText resp = Some t \<and>
          generateCaptionAndHashtags productName productDescription r = Inr c"
    and n: "\<not> sublist ''Hashtags:'' t"
  have "sublist ''Hashtags:'' ''Hashtags: ''" by code_simp
  then have "matchLabel ''Hashtags: '' t = None" using n by (rule matchLabel_absent)
  with h show "hashtags c = ''#fyp #racuntiktok''"
    by (auto simp: generateCaptionAndHashtags_def generateCaptionAndHashtags_try_def Let_def)
qed

theorem generateCaptionAndHashtags_total_witness:
  "generateCaptionAndHashtags ''Serum'' ''d''
     (Inr \<lparr>responseText = Some ''Caption Serum terbaik'', blockReason = None, parts = None\<rparr>)
     = Inr \<lparr>caption = ''Check this out!'', hashtags = ''#fyp #racuntiktok''\<rparr>
   \<and> \<not> sublist ''Caption:'' ''Caption Serum terbaik''
   \<and> \<not> sublist ''Hashtags:'' ''Caption Serum terbaik''
   \<and> generateCaptionAndHashtags ''Serum'' ''d'' (Inl (Error ''quota''))
     = Inr \<lparr>caption = ''Wajib coba Serum! '' @
                        [CHR 0xC3, CHR 0xA2, CHR 0xC5, CHR 0x93, CHR 0xC2, CHR 0xA8],
            hashtags = ''#fyp #racuntiktok #productreview #xyzbca #tiktokmademebuyit''\<rparr>"
proof -
  let ?r = "Inr \<lparr>responseText = Some ''Caption Serum terbaik'', blockReason = None, parts = None\<rparr>
              :: provider_outcome"
  have a: "\<not> sublist ''Caption:'' ''Caption Serum terbaik''" by code_simp
  have b: "\<not> sublist ''Hashtags:'' ''Caption Serum terbaik''" by code_simp
  obtain c where c: "generateCaptionAndHashtags ''Serum'' ''d'' ?r = Inr c"
    using generateCaptionAndHashtags_total [of "''Serum''" "''d''" ?r] by blast
  have "caption c = ''Check this out!'' \<and> hashtags c = ''#fyp #racuntiktok''"
    using generateCaptionAndHashtags_total [of "''Serum''" "''d''" ?r] a b c by auto
  then have "c = \<lparr>caption = ''Check this out!'', hashtags = ''#fyp #racuntiktok''\<rparr>" by simp
  then show ?thesis
    using a b c generateCaptionAndHashtags_total [of "''Serum''" "''d''" "Inl (Error ''quota'')"]
    by simp
qed

subsection \<open>Audio post-processing\<close>


lemma sampleToInt16_range: "- 32768 \<le> sampleToInt16 x \<and> sampleToInt16 x \<le> 32767"
proof -
  define s where "s = max (- 1) (min 1 x)"
  have s: "- 1 \<le> s" "s \<le> 1" by (simp_all add: s_def)
  show ?thesis
  proof (cases "s < 0")
    case True
    have v: "sampleToInt16 x = - \<lfloor>- (s * 32768)\<rfloor>"
      using True by (simp add: sampleToInt16_def Let_def s_def [symmetric] mult_less_0_iff)
    have "0 \<le> - (s * 32768)" "- (s * 32768) \<le> 32768" using s True by simp_all
    then have "0 \<le> \<lfloor>- (s * 32768)\<rfloor>" "\<lfloor>- (s * 32768)\<rfloor> \<le> 32768"
      by (simp_all add: floor_le_iff)
    then show ?thesis unfolding v by linarith
  next
    case False
    have v: "sampleToInt16 x = \<lfloor>s * 32767\<rfloor>"
      using False by (simp add: sampleToInt16_def Let_def s_def [symmetric] mult_less_0_iff)
    have "0 \<le> s * 32767" "s * 32767 \<le> 32767" using s False by simp_all
    then have "0 \<le> \<lfloor>s * 32767\<rfloor>" "\<lfloor>s * 32767\<rfloor> \<le> 32767"
      by (simp_all add: floor_le_iff)
    then show ?thesis unfolding v by linarith
  qed
qed



lemma samples_of_wav:
  "drop 44 (audioBufferToWav r) = concat (map (\<lambda>x. setInt16 (sampleToInt16 x)) (channelData r))"
  by (simp add: audioBufferToWav_def Let_def writeString_def setUint32_def setUint16_def
        bitDepth_def)



subsection \<open>Batch image generation\<close>

lemma firstRejection_None_iff:
  "firstRejection ps = None \<longleftrightarrow> (\<forall>p \<in> set ps. \<exists>v. snd p = Inr v)"
  by (induction ps rule: firstRejection.induct) (auto split: option.splits)

lemma firstRejection_Some:
  "firstRejection ps = Some (t, e) \<Longrightarrow>
     (t, Inl e) \<in> set ps \<and> (\<forall>t' e'. (t', Inl e') \<in> set ps \<longrightarrow> t \<le> t')"
proof (induction ps arbitrary: t e rule: firstRejection.induct)
  case 1
  then show ?case by simp
next
  case (2 t0 v ps)
  then show ?case by auto
next
  case (3 t0 e0 ps)
  show ?case
  proof (cases "firstRejection ps")
    case None
    then have "\<forall>p \<in> set ps. \<exists>v. snd p = Inr v" by (simp add: firstRejection_None_iff)
    then have "\<And>t' e'. (t', Inl e') \<notin> set ps" by fastforce
    moreover have "t = t0" "e = e0" using "3.prems" None by simp_all
    ultimately show ?thesis by simp
  next
    case (Some r)
    obtain t1 e1 where r: "r = (t1, e1)" by (cases r)
    have ih: "(t1, Inl e1) \<in> set ps \<and> (\<forall>t' e'. (t', Inl e') \<in> set ps \<longrightarrow> t1 \<le> t')"
      using "3.IH" Some r by simp
    show ?thesis
    proof (cases "t1 < t0")
      case True
      then have "t = t1" "e = e1" using "3.prems" Some r by simp_all
      then show ?thesis using ih True by auto
    next
      case False
      then have "t = t0" "e = e0" using "3.prems" Some r by simp_all
      then show ?thesis using ih False by fastforce
    qed
  qed
qed

lemma fulfilledValues_all:
  "\<forall>p \<in> set ps. \<exists>v. snd p = Inr v \<Longrightarrow> map (\<lambda>v. Inr v) (fulfilledValues ps) = map snd ps"
  by (induction ps rule: fulfilledValues.induct) auto

lemma promiseAll_Inr_iff:
  "snd (promiseAll ps) = Inr vs \<longleftrightarrow> map snd ps = map Inr vs"
proof
  assume a: "snd (promiseAll ps) = Inr vs"
  then have n: "firstRejection ps = None" and v: "vs = fulfilledValues ps"
    by (auto simp: promiseAll_def split: option.splits)
  from n have "\<forall>p \<in> set ps. \<exists>v. snd p = Inr v" by (simp add: firstRejection_None_iff)
  from fulfilledValues_all [OF this] show "map snd ps = map Inr vs" using v by simp
next
  assume a: "map snd ps = map Inr vs"
  have all: "\<forall>p \<in> set ps. \<exists>v. snd p = Inr v"
  proof
    fix p assume "p \<in> set ps"
    then have "snd p \<in> set (map snd ps)" by simp
    then have "snd p \<in> set (map Inr vs)" using a by simp
    then show "\<exists>v. snd p = Inr v" by auto
  qed
  then have n: "firstRejection ps = None" by (simp add: firstRejection_None_iff)
  have "map (\<lambda>v. Inr v :: thrown + 'a) (fulfilledValues ps) = map Inr vs"
    using fulfilledValues_all [OF all] a by simp
  then have "fulfilledValues ps = vs" by (simp add: inj_map_eq_map inj_on_def)
  then show "snd (promiseAll ps) = Inr vs" using n by (simp add: promiseAll_def)
qed

lemma promiseAll_Inl:
  assumes "snd (promiseAll ps) = Inl e"
  shows "\<exists>t. (t, Inl e) \<in> set ps \<and> (\<forall>t' e'. (t', Inl e') \<in> set ps \<longrightarrow> t \<le> t')"
proof (cases "firstRejection ps")
  case None
  then show ?thesis using assms by (simp add: promiseAll_def)
next
  case (Some r)
  obtain t e0 where r: "r = (t, e0)" by (cases r)
  have "e0 = e" using assms Some r by (simp add: promiseAll_def)
  then have "firstRejection ps = Some (t, e)" using Some r by simp
  from firstRejection_Some [OF this] show ?thesis by blast
qed

lemma promiseAll_rejects:
  assumes "(t, Inl e) \<in> set ps"
  shows "\<exists>e'. snd (promiseAll ps) = Inl e'"
proof (cases "firstRejection ps")
  case None
  then have "\<forall>p \<in> set ps. \<exists>v. snd p = Inr v" by (simp add: firstRejection_None_iff)
  then show ?thesis using assms by fastforce
next
  case (Some r)
  then show ?thesis by (cases r) (simp add: promiseAll_def)
qed


lemma set_prompts: "p \<in> set prompts"
  by (cases p) (simp_all add: prompts_def)

text \<open>
  C7 (as the code has it). All three requests are issued whatever the answers. The
  three image URLs are returned, in prompt order, exactly when every request succeeds.
  When a request fails the whole call rejects and returns no URL: with the reason of
  the earliest rejection when it is an \<^verbatim>\<open>Error\<close>, and with a fresh "unknown error"
  \<^verbatim>\<open>Error\<close> when that reason is any other value.
\<close>

theorem generateAdImages_all_or_nothing:
  "requestsIssued (generateAdImages g) = [FirstFrame, SecondFrame, FinalFrame]
   \<and> (\<forall>urls. returned (generateAdImages g) = Inr urls \<longleftrightarrow>
         (\<exists>t1 t2 t3 u1 u2 u3.
            imageGeneration (g FirstFrame) = (t1, Inr u1) \<and>
            imageGeneration (g SecondFrame) = (t2, Inr u2) \<and>
            imageGeneration (g FinalFrame) = (t3, Inr u3) \<and> urls = [u1, u2, u3]))
   \<and> (\<forall>err. returned (generateAdImages g) = Inl err \<longrightarrow>
         (\<exists>p t e. imageGeneration (g p) = (t, Inl e) \<and>
            (\<forall>p' t' e'. imageGeneration (g p') = (t', Inl e') \<longrightarrow> t \<le> t') \<and>
            err = (case e of
                     Error m \<Rightarrow> Error m
                   | NonError v \<Rightarrow>
                       Error ''An unknown error occurred while generating ad images.'')))
   \<and> (\<forall>p t e. imageGeneration (g p) = (t, Inl e) \<longrightarrow>
         (\<exists>err. returned (generateAdImages g) = Inl err))"
proof -
  define ps where "ps = map (\<lambda>prompt. imageGeneration (g prompt)) prompts"
  have ret: "returned (generateAdImages g) =
      (case snd (promiseAll ps) of
         Inr urls \<Rightarrow> Inr urls
       | Inl (Error m) \<Rightarrow> Inl (Error m)
       | Inl (NonError v) \<Rightarrow> Inl (Error ''An unknown error occurred while generating ad images.''))"
    by (simp add: generateAdImages_def Let_def ps_def)
  have mem: "\<And>p. imageGeneration (g p) \<in> set ps"
    using set_prompts by (simp add: ps_def)
  have c1: "requestsIssued (generateAdImages g) = [FirstFrame, SecondFrame, FinalFrame]"
    by (simp add: generateAdImages_def Let_def prompts_def)
  have c2: "returned (generateAdImages g) = Inr urls \<longleftrightarrow>
         (\<exists>t1 t2 t3 u1 u2 u3.
            imageGeneration (g FirstFrame) = (t1, Inr u1) \<and>
            imageGeneration (g SecondFrame) = (t2, Inr u2) \<and>
            imageGeneration (g FinalFrame) = (t3, Inr u3) \<and> urls = [u1, u2, u3])" for urls
  proof -
    have "returned (generateAdImages g) = Inr urls \<longleftrightarrow> snd (promiseAll ps) = Inr urls"
      by (auto simp: ret split: sum.splits thrown.splits)
    also have "\<dots> \<longleftrightarrow> map snd ps = map Inr urls" by (rule promiseAll_Inr_iff)
    also have "\<dots> \<longleftrightarrow> (\<exists>u1 u2 u3. snd (imageGeneration (g FirstFrame)) = Inr u1 \<and>
            snd (imageGeneration (g SecondFrame)) = Inr u2 \<and>
            snd (imageGeneration (g FinalFrame)) = Inr u3 \<and> urls = [u1, u2, u3])"
      by (auto simp: ps_def prompts_def map_eq_Cons_conv)
    also have "\<dots> \<longleftrightarrow> (\<exists>t1 t2 t3 u1 u2 u3.
            imageGeneration (g FirstFrame) = (t1, Inr u1) \<and>
            imageGeneration (g SecondFrame) = (t2, Inr u2) \<and>
            imageGeneration (g FinalFrame) = (t3, Inr u3) \<and> urls = [u1, u2, u3])"
      by (metis prod.collapse snd_conv)
    finally show ?thesis .
  qed
  have c3: "\<exists>p t e. imageGeneration (g p) = (t, Inl e) \<and>
            (\<forall>p' t' e'. imageGeneration (g p') = (t', Inl e') \<longrightarrow> t \<le> t') \<and>
            err = (case e of
                     Error m \<Rightarrow> Error m
                   | NonError v \<Rightarrow>
                       Error ''An unknown error occurred while generating ad images.'')"
    if r: "returned (generateAdImages g) = Inl err" for err
  proof -
    obtain e where e: "snd (promiseAll ps) = Inl e"
      and err: "err = (case e of Error m \<Rightarrow> Error m
                   | NonError v \<Rightarrow> Error ''An unknown error occurred while generating ad images.'')"
      using r by (auto simp: ret split: sum.splits thrown.splits)
    obtain t where t: "(t, Inl e) \<in> set ps"
      and least: "\<forall>t' e'. (t', Inl e') \<in> set ps \<longrightarrow> t \<le> t'"
      using promiseAll_Inl [OF e] by blast
    from t obtain p where p: "imageGeneration (g p) = (t, Inl e)" by (auto simp: ps_def)
    have "\<forall>p' t' e'. imageGeneration (g p') = (t', Inl e') \<longrightarrow> t \<le> t'"
      using least mem by metis
    with p err show ?thesis by blast
  qed
  have c4: "\<exists>err. returned (generateAdImages g) = Inl err"
    if f: "imageGeneration (g p) = (t, Inl e)" for p t e
  proof -
    have "(t, Inl e) \<in> set ps" using mem [of p] f by simp
    from promiseAll_rejects [OF this] obtain e' where "snd (promiseAll ps) = Inl e'" by blast
    then show ?thesis by (cases e') (simp_all add: ret)
  qed
  show ?thesis using c1 c2 c3 c4 by blast
qed

theorem generateAdImages_all_or_nothing_witness:
  "imageGeneration
     ((\<lambda>p. if p = SecondFrame
            then (1, Inr \<lparr>responseText = None, blockReason = Some ''SAFETY'', parts = None\<rparr>)
            else (2, Inr \<lparr>responseText = None, blockReason = None,
                          parts = Some [\<lparr>inlineData = Some (''image/png'', ''AAAA''),
                                         partText = None\<rparr>]\<rparr>)) SecondFrame)
     = (1, Inl (Error ''Request was blocked: SAFETY''))
   \<and> returned (generateAdImages
       (\<lambda>p. if p = SecondFrame
            then (1, Inr \<lparr>responseText = None, blockReason = Some ''SAFETY'', parts = None\<rparr>)
            else (2, Inr \<lparr>responseText = None, blockReason = None,
                          parts = Some [\<lparr>inlineData = Some (''image/png'', ''AAAA''),
                                         partText = None\<rparr>]\<rparr>)))
     = Inl (Error ''Request was blocked: SAFETY'')
   \<and> requestsIssued (generateAdImages
       (\<lambda>p. if p = SecondFrame
            then (1, Inr \<lparr>responseText = None, blockReason = Some ''SAFETY'', parts = None\<rparr>)
            else (2, Inr \<lparr>responseText = None, blockReason = None,
                          parts = Some [\<lparr>inlineData = Some (''image/png'', ''AAAA''),
                                         partText = None\<rparr>]\<rparr>)))
     = [FirstFrame, SecondFrame, FinalFrame]"
proof -
  let ?g = "\<lambda>p. if p = SecondFrame
            then (1::nat, Inr \<lparr>responseText = None, blockReason = Some ''SAFETY'', parts = None\<rparr>
                            :: provider_outcome)
            else (2, Inr \<lparr>responseText = None, blockReason = None,
                          parts = Some [\<lparr>inlineData = Some (''image/png'', ''AAAA''),
                                         partText = None\<rparr>]\<rparr>)"
  have a: "imageGeneration (?g SecondFrame) = (1, Inl (Error ''Request was blocked: SAFETY''))"
    by code_simp
  have b: "returned (generateAdImages ?g) = Inl (Error ''Request was blocked: SAFETY'')"
    by code_simp
  show ?thesis using a b generateAdImages_all_or_nothing [of ?g] by simp
qed

text \<open>
  The claim as first stated lets the call reject "with that failure". A provider
  rejection that is not an \<^verbatim>\<open>Error\<close> object is replaced: the caller sees a new
  \<^verbatim>\<open>Error\<close>, not the value the request failed with.
\<close>

theorem generateAdImages_replaces_non_error:
  "returned (generateAdImages
       (\<lambda>p. if p = FirstFrame then (1, Inl (NonError ''quota''))
            else (2, Inr \<lparr>responseText = None, blockReason = None,
                          parts = Some [\<lparr>inlineData = Some (''image/png'', ''AAAA''),
                                         partText = None\<rparr>]\<rparr>)))
     = Inl (Error ''An unknown error occurred while generating ad images.'')
   \<and> returned (generateAdImages
       (\<lambda>p. if p = FirstFrame then (1, Inl (NonError ''quota''))
            else (2, Inr \<lparr>responseText = None, blockReason = None,
                          parts = Some [\<lparr>inlineData = Some (''image/png'', ''AAAA''),
                                         partText = None\<rparr>]\<rparr>)))
     \<noteq> Inl (NonError ''quota'')"
proof -
  have "returned (generateAdImages
       (\<lambda>p. if p = FirstFrame then (1, Inl (NonError ''quota''))
            else (2, Inr \<lparr>responseText = None, blockReason = None,
                          parts = Some [\<lparr>inlineData = Some (''image/png'', ''AAAA''),
                                         partText = None\<rparr>]\<rparr>)))
     = Inl (Error ''An unknown error occurred while generating ad images.'')"
    by code_simp
  then show ?thesis by simp
qed

section \<open>Properties of the wizard\<close>

lemma generateVideos_loop_finalVideo:
  "finalVideo (generateVideos_loop g imgs n i gen w) = finalVideo w"
  by (induction n arbitrary: i gen w) (auto split: sum.splits simp: Let_def)

text \<open>
  No handler of steps 3 and 4 writes the final video: the setter is not passed to these
  steps.
\<close>

lemma steps_3_4_keep_finalVideo:
  "finalVideo (handleGenerateScript r w) = finalVideo w"
  "finalVideo (handleGenerateAudio r w) = finalVideo w"
  "finalVideo (handleGenerateImages rs w) = finalVideo w"
  "finalVideo (handleRegenerateImage i r w) = finalVideo w"
  "finalVideo (handleGenerateVideos g w) = finalVideo w"
  "finalVideo (handleRegenerateVideo i g w) = finalVideo w"
  by (auto simp: handleGenerateScript_def handleGenerateAudio_def handleGenerateImages_def
        handleRegenerateImage_def handleGenerateVideos_def handleRegenerateVideo_def
        generateVideos_loop_finalVideo Let_def split: sum.splits)

text \<open>
  C6 (as the code has it). Regenerating the script clears the narration audio, whatever
  the provider answers. A scene image that is regenerated takes its place in the list
  and all scene videos are cleared. A scene video that is regenerated takes its place in
  the list of scene videos; the scene images and the other scene videos stay.
\<close>

theorem regeneration_clears:
  "audioUrl (adsCopy (handleGenerateScript r w)) = None
   \<and> adVideos (studio (handleRegenerateImage i (Inr newImageUrl) w)) = []
   \<and> adImages (studio (handleRegenerateImage i (Inr newImageUrl) w))
       = arraySet (adImages (studio w)) i newImageUrl
   \<and> (\<forall>f v. sceneImageFile (adImages (studio w)) i = Inr f \<and> g (i mod 3) f = Inr v \<longrightarrow>
         studio (handleRegenerateVideo i g w)
           = (studio w)\<lparr>adVideos := arraySet (adVideos (studio w)) i v\<rparr>)"
  by (auto simp: handleGenerateScript_def handleRegenerateImage_def handleRegenerateVideo_def
        Let_def split: sum.splits)

theorem regeneration_clears_witness:
  "sceneImageFile (adImages (studio exampleWizard)) 1
     = Inr \<lparr>imageData = ''BB'', mimeType = ''image/png'',
            previewUrl = ''data:image/png;base64,BB''\<rparr>
   \<and> studio (handleRegenerateVideo 1 (\<lambda>k f. Inr ''blob:new'') exampleWizard)
     = \<lparr>adImages = [Some ''data:image/png;base64,AA'', Some ''data:image/png;base64,BB'',
                    Some ''data:image/png;base64,CC''],
        adVideos = [Some ''blob:v1'', Some ''blob:new'', Some ''blob:v3'']\<rparr>
   \<and> audioUrl (adsCopy (handleGenerateScript (Inr ''Baru'') exampleWizard)) = None
   \<and> adVideos (studio (handleRegenerateImage 1 (Inr ''data:image/png;base64,DD'')
                          exampleWizard)) = []"
proof -
  have a: "sceneImageFile (adImages (studio exampleWizard)) 1
     = Inr \<lparr>imageData = ''BB'', mimeType = ''image/png'',
            previewUrl = ''data:image/png;base64,BB''\<rparr>"
    by code_simp
  have b: "(studio exampleWizard)\<lparr>adVideos := arraySet (adVideos (studio exampleWizard)) 1
                                                ''blob:new''\<rparr>
     = \<lparr>adImages = [Some ''data:image/png;base64,AA'', Some ''data:image/png;base64,BB'',
                    Some ''data:image/png;base64,CC''],
        adVideos = [Some ''blob:v1'', Some ''blob:new'', Some ''blob:v3'']\<rparr>"
    by (simp add: exampleWizard_def arraySet_def)
  show ?thesis
    using a b
      regeneration_clears [of "Inr ''Baru''" exampleWizard 1 "''data:image/png;base64,DD''"
                              "\<lambda>k f. Inr ''blob:new''"]
    by simp
qed

text \<open>
  The claim as first stated has a regenerated scene video clear the final composed
  video, and every regeneration clear all later artifacts. In the example session the
  final video survives the regeneration of a scene video, the last step then keeps it
  instead of composing again, and a regenerated script leaves the scene images that
  were made from the old one.
\<close>

theorem regenerate_video_keeps_final_video:
  "url (finalVideo (handleRegenerateVideo 1 (\<lambda>k f. Inr ''blob:new'') exampleWizard))
     = Some ''blob:final''
   \<and> adVideos (studio (handleRegenerateVideo 1 (\<lambda>k f. Inr ''blob:new'') exampleWizard))
     = [Some ''blob:v1'', Some ''blob:new'', Some ''blob:v3'']
   \<and> handleCombine (Inr (''blob:recomposed'', ''webm'')) ''Serum'' ''d'' (Inl (Error ''x''))
       (handleRegenerateVideo 1 (\<lambda>k f. Inr ''blob:new'') exampleWizard)
     = handleRegenerateVideo 1 (\<lambda>k f. Inr ''blob:new'') exampleWizard
   \<and> adImages (studio (handleGenerateScript (Inr ''Baru'') exampleWizard))
     = [Some ''data:image/png;base64,AA'', Some ''data:image/png;base64,BB'',
        Some ''data:image/png;base64,CC'']"
proof -
  have a: "sceneImageFile (adImages (studio exampleWizard)) 1
     = Inr \<lparr>imageData = ''BB'', mimeType = ''image/png'',
            previewUrl = ''data:image/png;base64,BB''\<rparr>"
    by code_simp
  have v: "handleRegenerateVideo 1 (\<lambda>k f. Inr ''blob:new'') exampleWizard
     = exampleWizard\<lparr>studio := (studio exampleWizard)
         \<lparr>adVideos := [Some ''blob:v1'', Some ''blob:new'', Some ''blob:v3'']\<rparr>\<rparr>"
    using a by (simp add: handleRegenerateVideo_def Let_def exampleWizard_def arraySet_def)
  have c: "handleCombine (Inr (''blob:recomposed'', ''webm'')) ''Serum'' ''d'' (Inl (Error ''x''))
       (handleRegenerateVideo 1 (\<lambda>k f. Inr ''blob:new'') exampleWizard)
     = handleRegenerateVideo 1 (\<lambda>k f. Inr ''blob:new'') exampleWizard"
    unfolding v by (simp add: handleCombine_def truthy_def exampleWizard_def)
  have s: "adImages (studio (handleGenerateScript (Inr ''Baru'') exampleWizard))
     = [Some ''data:image/png;base64,AA'', Some ''data:image/png;base64,BB'',
        Some ''data:image/png;base64,CC'']"
    by (simp add: handleGenerateScript_def Let_def exampleWizard_def)
  show ?thesis using v c s by (simp add: exampleWizard_def)
qed

section \<open>Properties of the compositor\<close>

lemma example_started:
  "combineVideosAndAudio examplePlatform exampleClips ''blob:audio''
     = \<lparr>workDone = [GetCanvasContext, NewAudioContext, DecodeAudio ''blob:audio'',
                     LoadVideo ''blob:v1'', LoadVideo ''blob:v2'', LoadVideo ''blob:v3'',
                     NewMediaRecorder ''video/webm'', RecorderStart, AudioSourceStart],
        started = Inr exampleStart\<rparr>"
  by code_simp

text \<open>
  The example on its time line: the first clip shows for two intervals, the second for
  three, the third for four; from the ninth interval on the canvas holds the third
  clip's final frame, and the recorder stops with the narration at the twelfth.
\<close>

lemma example_timeline:
  "map (\<lambda>n. canvasFrame (run (replicate n Tick) exampleStart)) [0, 1, 2, 4, 5, 8, 9, 11, 12]
     = [None, Some (0, 1), Some (1, 0), Some (1, 2), Some (2, 0), Some (2, 3), Some (2, 4),
        Some (2, 4), Some (2, 4)]"
  "map (\<lambda>n. recorderState (run (replicate n Tick) exampleStart)) [0, 9, 11, 12, 13]
     = [Recording, Recording, Recording, Inactive, Inactive]"
  by code_simp+

text \<open>The same clips under a narration of six intervals, shorter than the clips.\<close>

lemma example_started_short:
  "started (combineVideosAndAudio (examplePlatform\<lparr>fetchDecodeAudio := (\<lambda>u. (1, Inr 6))\<rparr>)
              exampleClips ''blob:audio'')
     = Inr (exampleStart\<lparr>audioDuration := 6\<rparr>)"
  by code_simp

lemma run_Nil [simp]: "run [] c = c"
  by (simp add: run_def)

lemma run_Cons [simp]: "run (e # es) c = run es (dispatch e c)"
  by (simp add: run_def)

lemma run_append: "run (es @ es') c = run es' (run es c)"
  by (simp add: run_def)

lemma ticks_simps [simp]:
  "ticks [] = 0"
  "ticks (Tick # es) = Suc (ticks es)"
  "ticks (PlayRejected i # es) = ticks es"
  "ticks (RecorderError # es) = ticks es"
  "ticks (DataAvailable n # es) = ticks es"
  "ticks (RecorderStop # es) = ticks es"
  by (simp_all add: ticks_def)


text \<open>The clock fields are those of the narration and the recorder.\<close>

lemma playNextVideo_clock [simp]:
  "audioPlaying (playNextVideo c) = audioPlaying c"
  "recorderState (playNextVideo c) = recorderState c"
  "stopQueued (playNextVideo c) = stopQueued c"
  "audioCtxClosed (playNextVideo c) = audioCtxClosed c"
  "recorded (playNextVideo c) = recorded c"
  "audioTime (playNextVideo c) = audioTime c"
  "audioDuration (playNextVideo c) = audioDuration c"
  by (simp_all add: playNextVideo_def Let_def)

lemma videoTick_clock [simp]:
  "audioPlaying (videoTick i c) = audioPlaying c"
  "recorderState (videoTick i c) = recorderState c"
  "stopQueued (videoTick i c) = stopQueued c"
  "audioCtxClosed (videoTick i c) = audioCtxClosed c"
  "recorded (videoTick i c) = recorded c"
  "audioTime (videoTick i c) = audioTime c"
  "audioDuration (videoTick i c) = audioDuration c"
  by (simp_all add: videoTick_def video_onended_def Let_def)

lemma clock_ok_cong:
  assumes "audioPlaying c' = audioPlaying c" "recorderState c' = recorderState c"
    "stopQueued c' = stopQueued c" "audioCtxClosed c' = audioCtxClosed c"
    "recorded c' = recorded c" "audioTime c' = audioTime c"
    "audioDuration c' = audioDuration c"
  shows "clock_ok n c' = clock_ok n c"
  using assms by (simp add: clock_ok_def)

lemma fold_videoTick_clock:
  "clock_ok n (fold videoTick is c) = clock_ok n c"
  "audioDuration (fold videoTick is c) = audioDuration c"
proof (induction "is" arbitrary: c)
  case Nil
  { case 1 show ?case by simp }
  { case 2 show ?case by simp }
next
  case (Cons i "is")
  { case 1 show ?case using Cons.IH(1) [of "videoTick i c"] by (simp add: clock_ok_cong [of "videoTick i c" c]) }
  { case 2 show ?case using Cons.IH(2) [of "videoTick i c"] by simp }
qed

lemma renderLoop_clock:
  "clock_ok n (renderLoop c) = clock_ok n c"
  "audioDuration (renderLoop c) = audioDuration c"
  by (simp_all add: renderLoop_def clock_ok_def Let_def split: option.splits)

lemma audioTick_clock:
  assumes "clock_ok n c"
  shows "clock_ok (Suc n)
           (audioTick (if recorderState c = Recording then c\<lparr>recorded := recorded c + 1\<rparr> else c))"
  using assms
  by (auto simp: clock_ok_def audioTick_def audioSource_onended_def recorder_stop_def
           split: if_splits)

lemma audioTick_duration [simp]: "audioDuration (audioTick c) = audioDuration c"
  by (simp add: audioTick_def audioSource_onended_def recorder_stop_def)

lemma tick_clock: "clock_ok n c \<Longrightarrow> clock_ok (Suc n) (tick c)"
  unfolding tick_def Let_def
  by (simp add: renderLoop_clock fold_videoTick_clock audioTick_clock del: upt.simps)

lemma tick_duration [simp]: "audioDuration (tick c) = audioDuration c"
  unfolding tick_def Let_def
  by (simp add: renderLoop_clock fold_videoTick_clock del: upt.simps)


lemma dispatch_clock:
  assumes "e = Tick \<or> (\<exists>k. e = DataAvailable k) \<or> e = RecorderStop" and "clock_ok n c"
  shows "clock_ok (n + ticks [e]) (dispatch e c)"
proof (cases e)
  case Tick
  then show ?thesis using assms(2) by (simp add: tick_clock)
next
  case (DataAvailable k)
  then show ?thesis
    using assms(2) by (simp add: clock_ok_def recorder_ondataavailable_def split: if_splits)
next
  case RecorderStop
  then show ?thesis
    using assms(2)
    by (simp add: clock_ok_def recorder_onstop_def settle_def Let_def split: if_splits)
next
  case (PlayRejected i)
  then show ?thesis using assms(1) by simp
next
  case RecorderError
  then show ?thesis using assms(1) by simp
qed

lemma dispatch_duration [simp]: "audioDuration (dispatch e c) = audioDuration c"
  by (cases e)
     (simp_all add: play_catch_def recorder_stop_def recorder_onerror_def
        recorder_ondataavailable_def recorder_onstop_def settle_def Let_def)

lemma run_duration [simp]: "audioDuration (run es c) = audioDuration c"
  by (induction es arbitrary: c) simp_all

lemma ticks_Cons: "ticks (e # es) = ticks [e] + ticks es"
  by (simp add: ticks_def)

lemma run_clock:
  assumes "\<forall>e \<in> set es. e = Tick \<or> (\<exists>k. e = DataAvailable k) \<or> e = RecorderStop"
    and "clock_ok n c"
  shows "clock_ok (n + ticks es) (run es c)"
  using assms
proof (induction es arbitrary: n c)
  case Nil
  then show ?case by simp
next
  case (Cons e es)
  have "clock_ok (n + ticks [e]) (dispatch e c)"
    using Cons.prems by (intro dispatch_clock) simp_all
  then have "clock_ok (n + ticks [e] + ticks es) (run es (dispatch e c))"
    using Cons.IH Cons.prems(1) by simp
  then show ?case by (simp add: ticks_Cons [of e es] add.assoc)
qed

lemma started_Inr:
  assumes "started (combineVideosAndAudio p videoUrls a) = Inr c0"
  shows "\<exists>T vs mime.
           getContext p \<and> snd (fetchDecodeAudio p a) = Inr T \<and>
           snd (promiseAll (map (videoElement p) videoUrls)) = Inr vs \<and>
           List.find (isTypeSupported p) mimeTypesToTry = Some mime \<and>
           c0 = (playNextVideo
                  \<lparr>videos = vs, currentVideoIndex = 0,
                   recorderState = Recording, stopQueued = False, recorded = 0,
                   chunks = [], canvasFrame = None, animationFrame = False,
                   audioCtxClosed = False, audioDuration = T,
                   audioTime = 0, audioPlaying = True,
                   supportedMimeType = mime, recorderPromise = Pending\<rparr>)
                \<lparr>animationFrame := True\<rparr>"
proof -
  have g: "getContext p" using assms by (auto simp: combineVideosAndAudio_def split: if_splits)
  obtain ta ra where pa: "fetchDecodeAudio p a = (ta, ra)" by (cases "fetchDecodeAudio p a")
  obtain tb rb where pb: "promiseAll (map (videoElement p) videoUrls) = (tb, rb)"
    by (cases "promiseAll (map (videoElement p) videoUrls)")
  show ?thesis
    using assms g pa pb
    by (cases ra; cases rb)
       (auto simp: combineVideosAndAudio_def promiseAll2_def Let_def
             split: option.splits if_splits)
qed

lemma started_clock:
  assumes "started (combineVideosAndAudio p videoUrls a) = Inr c0"
  shows "clock_ok 0 c0" and "snd (fetchDecodeAudio p a) = Inr (audioDuration c0)"
  using started_Inr [OF assms] by (auto simp: clock_ok_def)

text \<open>
  C1 (as the code has it). Take a composition that started, so that every clip loaded,
  and any sequence of ticks and recorder deliveries in which no \<^verbatim>\<open>play()\<close> promise
  rejects and the recorder reports no fault. Then the recorder is recording exactly as
  long as the narration plays: it is stopped by the end of the narration and by nothing
  else. The recorder captures one interval per tick until then, so once the narration
  of length \<open>T\<close> has ended the recording is \<open>T\<close> intervals long (one interval when
  \<open>T = 0\<close>), whatever the clips' durations are.
\<close>

theorem narration_is_master_clock:
  assumes "started (combineVideosAndAudio p videoUrls a) = Inr c0"
    and "\<forall>e \<in> set es. e = Tick \<or> (\<exists>k. e = DataAvailable k) \<or> e = RecorderStop"
  shows "snd (fetchDecodeAudio p a) = Inr (audioDuration c0)
     \<and> audioPlaying (run es c0) = (ticks es < max 1 (audioDuration c0))
     \<and> recorderState (run es c0)
         = (if ticks es < max 1 (audioDuration c0) then Recording else Inactive)
     \<and> recorded (run es c0) = min (ticks es) (max 1 (audioDuration c0))"
proof -
  have "clock_ok (0 + ticks es) (run es c0)"
    using assms(2) started_clock(1) [OF assms(1)] by (rule run_clock)
  then have "clock_ok (ticks es) (run es c0)" by simp
  then show ?thesis
    using started_clock(2) [OF assms(1)]
    by (auto simp: clock_ok_def split: if_splits)
qed



lemma exampleStart_duration: "audioDuration exampleStart = 12"
  by (simp add: exampleStart_def)

theorem narration_is_master_clock_witness:
  "started (combineVideosAndAudio examplePlatform exampleClips ''blob:audio'') = Inr exampleStart
   \<and> recorded (run [Tick, Tick, Tick, Tick, Tick, Tick, Tick, Tick, Tick, Tick, Tick, Tick, Tick, DataAvailable 100, RecorderStop] exampleStart) = 12
   \<and> recorderState (run [Tick, Tick, Tick, Tick, Tick, Tick, Tick, Tick, Tick, Tick, Tick, Tick, Tick, DataAvailable 100, RecorderStop] exampleStart) = Inactive
   \<and> recorded (run [Tick, Tick, Tick, Tick, Tick] exampleStart) = 5
   \<and> recorderState (run [Tick, Tick, Tick, Tick, Tick] exampleStart) = Recording
   \<and> recorded (run [Tick, Tick, Tick, Tick, Tick, Tick, Tick, Tick, Tick] (exampleStart\<lparr>audioDuration := 6\<rparr>)) = 6
   \<and> recorderState (run [Tick, Tick, Tick, Tick, Tick, Tick, Tick, Tick, Tick] (exampleStart\<lparr>audioDuration := 6\<rparr>)) = Inactive"
proof -
  have s': "started (combineVideosAndAudio
                (examplePlatform\<lparr>fetchDecodeAudio := (\<lambda>u. (1, Inr 6))\<rparr>)
                exampleClips ''blob:audio'')
             = Inr (exampleStart\<lparr>audioDuration := 6\<rparr>)"
    by (rule example_started_short)
  have h3: "\<forall>e \<in> set [Tick, Tick, Tick, Tick, Tick, Tick, Tick, Tick, Tick]. e = Tick \<or> (\<exists>k. e = DataAvailable k) \<or> e = RecorderStop"
    by simp
  have s: "started (combineVideosAndAudio examplePlatform exampleClips ''blob:audio'')
             = Inr exampleStart"
    by (simp add: example_started)
  have h1: "\<forall>e \<in> set [Tick, Tick, Tick, Tick, Tick, Tick, Tick, Tick, Tick, Tick, Tick, Tick, Tick, DataAvailable 100, RecorderStop].
              e = Tick \<or> (\<exists>k. e = DataAvailable k) \<or> e = RecorderStop"
    by simp
  have h2: "\<forall>e \<in> set [Tick, Tick, Tick, Tick, Tick]. e = Tick \<or> (\<exists>k. e = DataAvailable k) \<or> e = RecorderStop"
    by simp
  show ?thesis
    using s narration_is_master_clock [OF s h1] narration_is_master_clock [OF s h2]
      narration_is_master_clock [OF s' h3]
    by (simp add: exampleStart_duration)
qed

text \<open>
  The claim as first stated lets nothing but the end of the narration stop the recorder
  when every clip loaded and the recorder reports no fault. A rejected \<^verbatim>\<open>play()\<close>
  stops it too: here the second clip's \<^verbatim>\<open>play()\<close> rejects after two intervals, the
  recorder becomes inactive while the narration of twelve intervals still plays, and
  the promise resolves with a recording of two intervals.
\<close>

theorem play_rejection_stops_recorder:
  "started (combineVideosAndAudio examplePlatform exampleClips ''blob:audio'') = Inr exampleStart
   \<and> recorderState (run [Tick, Tick, PlayRejected 1] exampleStart) = Inactive
   \<and> audioPlaying (run [Tick, Tick, PlayRejected 1] exampleStart)
   \<and> audioTime (run [Tick, Tick, PlayRejected 1] exampleStart) = 2
   \<and> audioDuration (run [Tick, Tick, PlayRejected 1] exampleStart) = 12
   \<and> recorded (run [Tick, Tick, PlayRejected 1, DataAvailable 100, RecorderStop, Tick, Tick]
                 exampleStart) = 2
   \<and> recorderPromise (run [Tick, Tick, PlayRejected 1, DataAvailable 100, RecorderStop]
                        exampleStart)
       = Resolved \<lparr>blobParts = [100], blobType = ''video/webm'', fileExtension = ''webm''\<rparr>"
proof -
  have s: "started (combineVideosAndAudio examplePlatform exampleClips ''blob:audio'')
             = Inr exampleStart"
    by (simp add: example_started)
  have r: "recorderState (run [Tick, Tick, PlayRejected 1] exampleStart) = Inactive
   \<and> audioPlaying (run [Tick, Tick, PlayRejected 1] exampleStart)
   \<and> audioTime (run [Tick, Tick, PlayRejected 1] exampleStart) = 2
   \<and> audioDuration (run [Tick, Tick, PlayRejected 1] exampleStart) = 12
   \<and> recorded (run [Tick, Tick, PlayRejected 1, DataAvailable 100, RecorderStop, Tick, Tick]
                 exampleStart) = 2
   \<and> recorderPromise (run [Tick, Tick, PlayRejected 1, DataAvailable 100, RecorderStop]
                        exampleStart)
       = Resolved \<lparr>blobParts = [100], blobType = ''video/webm'', fileExtension = ''webm''\<rparr>"
    by code_simp
  show ?thesis using s r by simp
qed

text \<open>The recorder's chunks and promise are written by the recorder's handlers only.\<close>

lemma videoTick_output [simp]:
  "chunks (videoTick i c) = chunks c"
  "recorderPromise (videoTick i c) = recorderPromise c"
  "animationFrame (videoTick i c) = animationFrame c"
  by (simp_all add: videoTick_def video_onended_def playNextVideo_def Let_def)

lemma fold_videoTick_output [simp]:
  "chunks (fold videoTick is c) = chunks c"
  "recorderPromise (fold videoTick is c) = recorderPromise c"
  "animationFrame (fold videoTick is c) = animationFrame c"
  by (induction "is" arbitrary: c) simp_all

lemma audioTick_output [simp]:
  "chunks (audioTick c) = chunks c"
  "recorderPromise (audioTick c) = recorderPromise c"
  "animationFrame (audioTick c) = animationFrame c"
  "videos (audioTick c) = videos c"
  "currentVideoIndex (audioTick c) = currentVideoIndex c"
  by (simp_all add: audioTick_def audioSource_onended_def recorder_stop_def)

lemma renderLoop_output [simp]:
  "chunks (renderLoop c) = chunks c"
  "recorderPromise (renderLoop c) = recorderPromise c"
  "videos (renderLoop c) = videos c"
  "currentVideoIndex (renderLoop c) = currentVideoIndex c"
  by (simp_all add: renderLoop_def Let_def split: option.splits)

lemma tick_output [simp]:
  "chunks (tick c) = chunks c"
  "recorderPromise (tick c) = recorderPromise c"
  unfolding tick_def Let_def by (simp_all del: upt.simps)

lemma dispatch_empty:
  assumes "e \<noteq> RecorderError" and "\<forall>k. e = DataAvailable k \<longrightarrow> k = 0" and "empty_ok c"
  shows "empty_ok (dispatch e c)"
proof (cases e)
  case Tick
  then show ?thesis using assms(3) by (simp add: empty_ok_def)
next
  case (PlayRejected i)
  then show ?thesis using assms(3) by (simp add: empty_ok_def play_catch_def recorder_stop_def)
next
  case RecorderError
  then show ?thesis using assms(1) by simp
next
  case (DataAvailable k)
  then show ?thesis using assms(2,3) by (simp add: empty_ok_def recorder_ondataavailable_def)
next
  case RecorderStop
  then show ?thesis
    using assms(3)
    by (auto simp: empty_ok_def recorder_onstop_def settle_def Let_def emptyRecording_def)
qed

lemma run_empty:
  assumes "RecorderError \<notin> set es" and "\<forall>k. DataAvailable k \<in> set es \<longrightarrow> k = 0"
    and "empty_ok c"
  shows "empty_ok (run es c)"
  using assms
proof (induction es arbitrary: c)
  case Nil
  then show ?case by simp
next
  case (Cons e es)
  have "empty_ok (dispatch e c)"
    using Cons.prems by (intro dispatch_empty) auto
  then show ?case using Cons.IH Cons.prems by simp
qed

lemma started_empty:
  assumes "started (combineVideosAndAudio p videoUrls a) = Inr c0"
  shows "empty_ok c0"
  using started_Inr [OF assms] by (auto simp: empty_ok_def playNextVideo_def Let_def)

text \<open>
  C4. Take a composition that started and any sequence of events in which the recorder
  reports no fault and delivers no data (every \<^verbatim>\<open>dataavailable\<close> event is empty). Then
  the \<^verbatim>\<open>stop\<close> event rejects the promise with the empty-recording failure, and the
  promise never resolves with an output.
\<close>

theorem empty_recording_rejects:
  assumes "started (combineVideosAndAudio p videoUrls a) = Inr c0"
    and "RecorderError \<notin> set es"
    and "\<forall>k. DataAvailable k \<in> set es \<longrightarrow> k = 0"
  shows "(stopQueued (run es c0) \<longrightarrow>
            recorderPromise (run (es @ [RecorderStop]) c0)
              = Rejected (Error
                  ''Recording failed, resulting in an empty file. This can be a browser issue.''))
     \<and> recorderPromise (recorder_onstop (run es c0))
          = Rejected (Error
              ''Recording failed, resulting in an empty file. This can be a browser issue.'')
     \<and> (\<forall>out. recorderPromise (run es c0) \<noteq> Resolved out)"
proof -
  have e: "empty_ok (run es c0)"
    using assms(2,3) started_empty [OF assms(1)] by (rule run_empty)
  have s: "recorderPromise (recorder_onstop (c\<lparr>stopQueued := False\<rparr>)) = Rejected emptyRecording"
    "recorderPromise (recorder_onstop c) = Rejected emptyRecording" if "empty_ok c" for c
    using that by (auto simp: empty_ok_def recorder_onstop_def settle_def Let_def emptyRecording_def)
  show ?thesis
    using e s [OF e] by (auto simp: run_append empty_ok_def emptyRecording_def)
qed



theorem empty_recording_rejects_witness:
  "started (combineVideosAndAudio examplePlatform exampleClips ''blob:audio'') = Inr exampleStart
   \<and> stopQueued (run [Tick, Tick, Tick, Tick, Tick, Tick, Tick, Tick, Tick, Tick, Tick, Tick, DataAvailable 0] exampleStart)
   \<and> recorderPromise (run ([Tick, Tick, Tick, Tick, Tick, Tick, Tick, Tick, Tick, Tick, Tick, Tick, DataAvailable 0] @ [RecorderStop]) exampleStart)
       = Rejected (Error
           ''Recording failed, resulting in an empty file. This can be a browser issue.'')"
proof -
  have s: "started (combineVideosAndAudio examplePlatform exampleClips ''blob:audio'')
             = Inr exampleStart"
    by (simp add: example_started)
  have h1: "RecorderError \<notin> set [Tick, Tick, Tick, Tick, Tick, Tick, Tick, Tick, Tick, Tick, Tick, Tick, DataAvailable 0]" by simp
  have h2: "\<forall>k. DataAvailable k \<in> set [Tick, Tick, Tick, Tick, Tick, Tick, Tick, Tick, Tick, Tick, Tick, Tick, DataAvailable 0] \<longrightarrow> k = 0" by simp
  have q: "stopQueued (run [Tick, Tick, Tick, Tick, Tick, Tick, Tick, Tick, Tick, Tick, Tick, Tick, DataAvailable 0] exampleStart)" by code_simp
  show ?thesis using s q empty_recording_rejects [OF s h1 h2] by simp
qed

text \<open>At most one index of a range satisfies a predicate that pins the index.\<close>

lemma filter_upt_unique:
  assumes "\<forall>i < n. P i \<longrightarrow> i = k"
  shows "filter P [0..<n] = (if k < n \<and> P k then [k] else [])"
  using assms
proof (induction n)
  case 0
  then show ?case by simp
next
  case (Suc n)
  have ih: "filter P [0..<n] = (if k < n \<and> P k then [k] else [])"
    using Suc.IH Suc.prems by simp
  show ?case
  proof (cases "P n")
    case True
    then have k: "k = n" using Suc.prems by auto
    then show ?thesis using ih True by simp
  next
    case False
    then show ?thesis using ih by (auto simp: less_Suc_eq)
  qed
qed

lemma played_ok_fields:
  assumes "videos c' = videos c" and "currentVideoIndex c' = currentVideoIndex c"
  shows "played_ok c' = played_ok c"
  using assms by (simp add: played_ok_def)

lemma played_ok_update:
  assumes "played_ok c" and "k = currentVideoIndex c" and "k < length (videos c)"
    and "playing v \<longrightarrow> playing (videos c ! k)"
  shows "played_ok (c\<lparr>videos := (videos c)[k := v]\<rparr>)"
  using assms by (simp add: played_ok_def nth_list_update)

lemma played_ok_next:
  assumes "played_ok c" and "k = currentVideoIndex c" and "k < length (videos c)"
    and "\<not> playing (videos c ! k)" and "currentTime (videos c ! k) = duration (videos c ! k)"
  shows "played_ok (video_onended c)"
proof -
  have none: "\<And>i. i < length (videos c) \<Longrightarrow> \<not> playing (videos c ! i)"
    using assms(1,2,4) by (auto simp: played_ok_def)
  have before: "\<And>i. i < length (videos c) \<Longrightarrow> i < Suc k \<Longrightarrow>
                  currentTime (videos c ! i) = duration (videos c ! i)"
    using assms(1,2,5) by (auto simp: played_ok_def less_Suc_eq)
  show ?thesis
  proof (cases "Suc k < length (videos c)")
    case True
    then show ?thesis
      using none before assms(2)
      by (simp add: played_ok_def video_onended_def playNextVideo_def Let_def nth_list_update)
  next
    case False
    then show ?thesis
      using none before assms(2)
      by (simp add: played_ok_def video_onended_def playNextVideo_def Let_def)
  qed
qed

lemma videoTick_played:
  assumes "played_ok c" and "currentVideoIndex c < length (videos c)"
  shows "played_ok (videoTick (currentVideoIndex c) c)"
proof -
  define k where "k = currentVideoIndex c"
  define v where "v = advance (videos c ! k)"
  define c' where "c' = c\<lparr>videos := (videos c)[k := v]\<rparr>"
  have kl: "k < length (videos c)" using assms(2) by (simp add: k_def)
  have pv: "playing v \<longrightarrow> playing (videos c ! k)" by (simp add: v_def advance_def Let_def)
  have ok': "played_ok c'"
    unfolding c'_def using assms(1) k_def kl pv by (rule played_ok_update)
  have vt: "videoTick k c =
      (if playing (videos c ! k) \<and> \<not> playing v \<and> onended v then video_onended c' else c')"
    by (simp add: videoTick_def Let_def v_def c'_def)
  show ?thesis
  proof (cases "playing (videos c ! k) \<and> \<not> playing v \<and> onended v")
    case False
    have "videoTick k c = c'" unfolding vt using False by (rule if_not_P)
    then show ?thesis using ok' by (simp add: k_def)
  next
    case True
    have eq: "videoTick k c = video_onended c'" unfolding vt using True by (rule if_P)
    have k': "k = currentVideoIndex c'" by (simp add: c'_def k_def)
    have l': "k < length (videos c')" using kl by (simp add: c'_def)
    have n: "\<not> playing (videos c' ! k)" using True kl by (simp add: c'_def)
    have d: "currentTime (videos c' ! k) = duration (videos c' ! k)"
      using True kl by (auto simp: c'_def v_def advance_def Let_def split: if_splits)
    have "played_ok (video_onended c')" using ok' k' l' n d by (rule played_ok_next)
    then show ?thesis using eq by (simp add: k_def)
  qed
qed

lemma tick_videos:
  assumes "played_ok c"
  shows "videos (tick c) =
           videos (if currentVideoIndex c < length (videos c) \<and>
                      playing (videos c ! currentVideoIndex c)
                   then videoTick (currentVideoIndex c) c else c)"
    and "currentVideoIndex (tick c) =
           currentVideoIndex (if currentVideoIndex c < length (videos c) \<and>
                      playing (videos c ! currentVideoIndex c)
                   then videoTick (currentVideoIndex c) c else c)"
proof -
  define c1 where
    "c1 = audioTick (if recorderState c = Recording then c\<lparr>recorded := recorded c + 1\<rparr> else c)"
  have v1: "videos c1 = videos c" and i1: "currentVideoIndex c1 = currentVideoIndex c"
    by (simp_all add: c1_def)
  have f: "filter (\<lambda>i. playing (videos c1 ! i)) [0..<length (videos c1)]
             = (if currentVideoIndex c < length (videos c) \<and>
                   playing (videos c ! currentVideoIndex c)
                then [currentVideoIndex c] else [])"
    unfolding v1 using assms by (intro filter_upt_unique) (simp add: played_ok_def)
  have t: "tick c = (let c2 = fold videoTick
                        (if currentVideoIndex c < length (videos c) \<and>
                            playing (videos c ! currentVideoIndex c)
                         then [currentVideoIndex c] else []) c1
                     in if animationFrame c2 then renderLoop c2 else c2)"
    unfolding tick_def Let_def c1_def [symmetric] f ..
  have vt: "videos (videoTick k c1) = videos (videoTick k c)"
    "currentVideoIndex (videoTick k c1) = currentVideoIndex (videoTick k c)" for k
    using v1 i1 by (simp_all add: videoTick_def video_onended_def playNextVideo_def Let_def)
  show "videos (tick c) =
           videos (if currentVideoIndex c < length (videos c) \<and>
                      playing (videos c ! currentVideoIndex c)
                   then videoTick (currentVideoIndex c) c else c)"
    unfolding t using v1 vt by (simp add: Let_def)
  show "currentVideoIndex (tick c) =
           currentVideoIndex (if currentVideoIndex c < length (videos c) \<and>
                      playing (videos c ! currentVideoIndex c)
                   then videoTick (currentVideoIndex c) c else c)"
    unfolding t using i1 vt by (simp add: Let_def)
qed

lemma tick_played:
  assumes "played_ok c"
  shows "played_ok (tick c)"
proof -
  let ?c' = "if currentVideoIndex c < length (videos c) \<and>
                playing (videos c ! currentVideoIndex c)
             then videoTick (currentVideoIndex c) c else c"
  have "played_ok ?c'" using assms by (simp add: videoTick_played)
  moreover have "played_ok (tick c) = played_ok ?c'"
    using tick_videos [OF assms] by (rule played_ok_fields)
  ultimately show ?thesis by simp
qed

lemma dispatch_played:
  assumes "played_ok c"
  shows "played_ok (dispatch e c)"
proof (cases e)
  case Tick
  then show ?thesis using assms by (simp add: tick_played)
next
  case (PlayRejected i)
  then show ?thesis
    using assms
    by (auto simp: played_ok_def play_catch_def recorder_stop_def nth_list_update)
next
  case RecorderError
  then show ?thesis using assms by (simp add: played_ok_def recorder_onerror_def settle_def Let_def)
next
  case (DataAvailable k)
  then show ?thesis using assms by (simp add: played_ok_def recorder_ondataavailable_def)
next
  case RecorderStop
  then show ?thesis using assms by (simp add: played_ok_def recorder_onstop_def settle_def Let_def)
qed

lemma run_played: "played_ok c \<Longrightarrow> played_ok (run es c)"
  by (induction es arbitrary: c) (simp_all add: dispatch_played)


text \<open>No event changes the number of clips or a clip's duration.\<close>

lemma map_update_same:
  assumes "f v = f (xs ! i)"
  shows "map f (xs[i := v]) = map f xs"
proof (cases "i < length xs")
  case True
  then show ?thesis using assms by (intro nth_equalityI) (simp_all add: nth_list_update)
next
  case False
  then have "xs[i := v] = xs" by (simp add: list_update_beyond)
  then show ?thesis by simp
qed

lemma playNextVideo_durations [simp]:
  "map duration (videos (playNextVideo c)) = map duration (videos c)"
  by (simp add: playNextVideo_def Let_def map_update_same)

lemma videoTick_durations [simp]:
  "map duration (videos (videoTick i c)) = map duration (videos c)"
  by (simp add: videoTick_def video_onended_def Let_def map_update_same advance_def)

lemma fold_videoTick_durations [simp]:
  "map duration (videos (fold videoTick is c)) = map duration (videos c)"
  by (induction "is" arbitrary: c) simp_all

lemma tick_durations [simp]: "map duration (videos (tick c)) = map duration (videos c)"
  unfolding tick_def Let_def by (simp del: upt.simps)

lemma dispatch_durations [simp]:
  "map duration (videos (dispatch e c)) = map duration (videos c)"
  by (cases e)
     (simp_all add: play_catch_def recorder_stop_def recorder_onerror_def
        recorder_ondataavailable_def recorder_onstop_def settle_def Let_def map_update_same)

lemma run_durations [simp]: "map duration (videos (run es c)) = map duration (videos c)"
  by (induction es arbitrary: c) simp_all

lemma run_length [simp]: "length (videos (run es c)) = length (videos c)"
  using run_durations [of es c] by (metis length_map)

lemma loaded_videos:
  assumes "snd (promiseAll (map (videoElement p) videoUrls)) = Inr vs"
  shows "length vs = length videoUrls"
    and "\<And>i. i < length vs \<Longrightarrow> \<not> playing (vs ! i)"
    and "\<And>i. i < length vs \<Longrightarrow>
           snd (loadVideo p (videoUrls ! i)) = LoadedMetadata (duration (vs ! i))"
proof -
  have m: "map snd (map (videoElement p) videoUrls) = map Inr vs"
    using assms by (simp add: promiseAll_Inr_iff)
  then show l: "length vs = length videoUrls" by (metis length_map)
  have e: "Inr (vs ! i) = snd (videoElement p (videoUrls ! i))" if "i < length vs" for i
  proof -
    have "map snd (map (videoElement p) videoUrls) ! i = map Inr vs ! i" using m by simp
    then show ?thesis using that l by simp
  qed
  show "\<not> playing (vs ! i)" if "i < length vs" for i
    using e [OF that]
    by (auto simp: videoElement_def split: prod.splits load_event.splits)
  show "snd (loadVideo p (videoUrls ! i)) = LoadedMetadata (duration (vs ! i))"
    if "i < length vs" for i
    using e [OF that]
    by (auto simp: videoElement_def split: prod.splits load_event.splits)
qed

lemma started_played:
  assumes "started (combineVideosAndAudio p videoUrls a) = Inr c0"
  shows "played_ok c0" and "length (videos c0) = length videoUrls"
    and "\<And>i. i < length videoUrls \<Longrightarrow>
           snd (loadVideo p (videoUrls ! i)) = LoadedMetadata (duration (videos c0 ! i))"
proof -
  obtain T vs mime where
    vs: "snd (promiseAll (map (videoElement p) videoUrls)) = Inr vs"
    and c0: "c0 = (playNextVideo
                  \<lparr>videos = vs, currentVideoIndex = 0,
                   recorderState = Recording, stopQueued = False, recorded = 0,
                   chunks = [], canvasFrame = None, animationFrame = False,
                   audioCtxClosed = False, audioDuration = T,
                   audioTime = 0, audioPlaying = True,
                   supportedMimeType = mime, recorderPromise = Pending\<rparr>)
                \<lparr>animationFrame := True\<rparr>"
    using started_Inr [OF assms] by blast
  note lv = loaded_videos [OF vs]
  show "played_ok c0"
    using lv(2) by (simp add: c0 played_ok_def playNextVideo_def Let_def nth_list_update)
  show l: "length (videos c0) = length videoUrls"
    using lv(1) by (simp add: c0 playNextVideo_def Let_def)
  have d: "map duration (videos c0) = map duration vs"
    by (simp add: c0)
  show "snd (loadVideo p (videoUrls ! i)) = LoadedMetadata (duration (videos c0 ! i))"
    if "i < length videoUrls" for i
  proof -
    have "map duration (videos c0) ! i = map duration vs ! i" using d by simp
    then have "duration (videos c0 ! i) = duration (vs ! i)" using that l lv(1) by simp
    then show ?thesis using lv(3) [of i] that lv(1) by simp
  qed
qed


lemma renderLoop_twice:
  "canvasFrame (renderLoop (renderLoop c)) = canvasFrame (renderLoop c)"
  by (simp add: renderLoop_def videoToDraw_def Let_def)

lemma tick_canvas:
  assumes "animationFrame c"
  shows "canvasFrame (tick c) = canvasFrame (renderLoop (tick c))"
proof -
  define c2 where "c2 =
    fold videoTick
      (filter (\<lambda>i. playing (videos (audioTick (if recorderState c = Recording
                 then c\<lparr>recorded := recorded c + 1\<rparr> else c)) ! i))
         [0..<length (videos (audioTick (if recorderState c = Recording
                 then c\<lparr>recorded := recorded c + 1\<rparr> else c)))])
      (audioTick (if recorderState c = Recording then c\<lparr>recorded := recorded c + 1\<rparr> else c))"
  have a: "animationFrame c2" using assms by (simp add: c2_def del: upt.simps)
  have "tick c = (if animationFrame c2 then renderLoop c2 else c2)"
    unfolding tick_def Let_def c2_def ..
  then have "tick c = renderLoop c2" using a by simp
  then show ?thesis by (simp add: renderLoop_twice)
qed

lemma freeze_frame_render:
  assumes "started (combineVideosAndAudio p videoUrls a) = Inr c0" and "videoUrls \<noteq> []"
    and "length videoUrls \<le> currentVideoIndex (run es c0)"
  shows "snd (loadVideo p (last videoUrls))
           = LoadedMetadata (duration (last (videos (run es c0))))"
    and "canvasFrame (renderLoop (run es c0))
           = Some (length videoUrls - 1, duration (last (videos (run es c0))))"
proof -
  define c where "c = run es c0"
  define k where "k = length videoUrls - 1"
  have ok: "played_ok c" using started_played(1) [OF assms(1)] by (simp add: c_def run_played)
  have l0: "length (videos c0) = length videoUrls" by (rule started_played(2) [OF assms(1)])
  have l: "length (videos c) = length videoUrls" using l0 by (simp add: c_def)
  have k: "k < length videoUrls" using assms(2) by (simp add: k_def)
  have ne: "videos c \<noteq> []" using l assms(2) by auto
  have lastc: "last (videos c) = videos c ! k" using ne l by (simp add: last_conv_nth k_def)
  have lastu: "last videoUrls = videoUrls ! k" using assms(2) by (simp add: last_conv_nth k_def)
  have "map duration (videos c) ! k = map duration (videos c0) ! k" by (simp add: c_def)
  then have d: "duration (videos c ! k) = duration (videos c0 ! k)" using k l l0 by simp
  show "snd (loadVideo p (last videoUrls))
           = LoadedMetadata (duration (last (videos (run es c0))))"
    using started_played(3) [OF assms(1) k] d lastc lastu by (simp add: c_def)
  have idx: "length (videos c) \<le> currentVideoIndex c" using assms(3) l by (simp add: c_def)
  have "k < currentVideoIndex c" using k idx l by simp
  then have t: "currentTime (videos c ! k) = duration (videos c ! k)"
    using ok k l by (simp add: played_ok_def)
  have "videoToDraw c = Some k" using idx assms(2) by (simp add: videoToDraw_def k_def l)
  then have "canvasFrame (renderLoop c) = Some (k, currentTime (videos c ! k))"
    by (simp add: renderLoop_def Let_def)
  then show "canvasFrame (renderLoop (run es c0))
           = Some (length videoUrls - 1, duration (last (videos (run es c0))))"
    using t lastc by (simp add: c_def k_def)
qed

text \<open>
  C2. Take a composition that started for a non-empty clip list, and any sequence of
  events. A run of the render loop never leaves the canvas blank. Once the active-clip
  index is past the last clip, a run of the render loop draws the last clip at its
  duration, that is its final frame, and so does every tick while the loop is scheduled.
\<close>

theorem freeze_frame_on_last_clip:
  assumes "started (combineVideosAndAudio p videoUrls a) = Inr c0" and "videoUrls \<noteq> []"
  shows "canvasFrame (renderLoop (run es c0)) \<noteq> None
     \<and> (length videoUrls \<le> currentVideoIndex (run es c0) \<longrightarrow>
          snd (loadVideo p (last videoUrls))
            = LoadedMetadata (duration (last (videos (run es c0)))) \<and>
          canvasFrame (renderLoop (run es c0))
            = Some (length videoUrls - 1, duration (last (videos (run es c0)))) \<and>
          (animationFrame (run es c0) \<longrightarrow>
             canvasFrame (run (es @ [Tick]) c0)
               = Some (length videoUrls - 1, duration (last (videos (run es c0))))))"
proof (intro conjI impI)
  have l: "length (videos (run es c0)) = length videoUrls"
    using started_played(2) [OF assms(1)] by simp
  then have "videoToDraw (run es c0) \<noteq> None" using assms(2) by (simp add: videoToDraw_def)
  then show "canvasFrame (renderLoop (run es c0)) \<noteq> None"
    by (auto simp: renderLoop_def Let_def)
next
  assume i: "length videoUrls \<le> currentVideoIndex (run es c0)"
  show "snd (loadVideo p (last videoUrls))
            = LoadedMetadata (duration (last (videos (run es c0))))"
    using assms i by (rule freeze_frame_render(1))
  show "canvasFrame (renderLoop (run es c0))
            = Some (length videoUrls - 1, duration (last (videos (run es c0))))"
    using assms i by (rule freeze_frame_render(2))
next
  assume i: "length videoUrls \<le> currentVideoIndex (run es c0)"
    and a: "animationFrame (run es c0)"
  define c where "c = run es c0"
  have ok: "played_ok c" using started_played(1) [OF assms(1)] by (simp add: c_def run_played)
  have l: "length (videos c) = length videoUrls"
    using started_played(2) [OF assms(1)] by (simp add: c_def)
  have r: "run (es @ [Tick]) c0 = tick c" by (simp add: run_append c_def)
  have "currentVideoIndex (tick c) = currentVideoIndex c"
    using tick_videos(2) [OF ok] i l by (simp add: c_def)
  then have i': "length videoUrls \<le> currentVideoIndex (run (es @ [Tick]) c0)"
    using i r by (simp add: c_def)
  have "canvasFrame (run (es @ [Tick]) c0) = canvasFrame (renderLoop (run (es @ [Tick]) c0))"
    unfolding r using a by (intro tick_canvas) (simp add: c_def)
  also have "\<dots> = Some (length videoUrls - 1, duration (last (videos (run (es @ [Tick]) c0))))"
    using assms i' by (rule freeze_frame_render(2))
  also have "duration (last (videos (run (es @ [Tick]) c0))) = duration (last (videos (run es c0)))"
  proof -
    have "length (videos (run (es @ [Tick]) c0)) = length videoUrls"
      and "length (videos (run es c0)) = length videoUrls"
      using started_played(2) [OF assms(1)] by simp_all
    then have n1: "videos (run (es @ [Tick]) c0) \<noteq> []" and n2: "videos (run es c0) \<noteq> []"
      using assms(2) by force+
    have a1: "duration (last (videos (run (es @ [Tick]) c0)))
                = last (map duration (videos (run (es @ [Tick]) c0)))"
      by (rule last_map [OF n1, symmetric])
    have a2: "duration (last (videos (run es c0))) = last (map duration (videos (run es c0)))"
      by (rule last_map [OF n2, symmetric])
    show ?thesis unfolding a1 a2 by (simp only: run_durations)
  qed
  finally show "canvasFrame (run (es @ [Tick]) c0)
               = Some (length videoUrls - 1, duration (last (videos (run es c0))))" .
qed



theorem freeze_frame_on_last_clip_witness:
  "started (combineVideosAndAudio examplePlatform exampleClips ''blob:audio'') = Inr exampleStart
   \<and> length exampleClips \<le> currentVideoIndex (run [Tick, Tick, Tick, Tick, Tick, Tick, Tick, Tick, Tick] exampleStart)
   \<and> animationFrame (run [Tick, Tick, Tick, Tick, Tick, Tick, Tick, Tick, Tick] exampleStart)
   \<and> snd (loadVideo examplePlatform (last exampleClips)) = LoadedMetadata 4
   \<and> canvasFrame (renderLoop (run [Tick, Tick, Tick, Tick, Tick, Tick, Tick, Tick, Tick] exampleStart)) = Some (2, 4)
   \<and> canvasFrame (run ([Tick, Tick, Tick, Tick, Tick, Tick, Tick, Tick, Tick] @ [Tick]) exampleStart) = Some (2, 4)"
proof -
  have s: "started (combineVideosAndAudio examplePlatform exampleClips ''blob:audio'')
             = Inr exampleStart"
    by (simp add: example_started)
  have n: "exampleClips \<noteq> []" by (simp add: exampleClips_def)
  have i: "length exampleClips \<le> currentVideoIndex (run [Tick, Tick, Tick, Tick, Tick, Tick, Tick, Tick, Tick] exampleStart)" by code_simp
  have a: "animationFrame (run [Tick, Tick, Tick, Tick, Tick, Tick, Tick, Tick, Tick] exampleStart)" by code_simp
  have d: "duration (last (videos (run [Tick, Tick, Tick, Tick, Tick, Tick, Tick, Tick, Tick] exampleStart))) = 4" by code_simp
  have l: "length exampleClips - 1 = 2" by (simp add: exampleClips_def)
  show ?thesis
    using s i a d l freeze_frame_on_last_clip [OF s n, of "[Tick, Tick, Tick, Tick, Tick, Tick, Tick, Tick, Tick]"] by simp
qed

lemma failed_start_records_nothing:
  assumes "started (combineVideosAndAudio p videoUrls a) = Inl err"
  shows "(\<forall>m. NewMediaRecorder m \<notin> set (workDone (combineVideosAndAudio p videoUrls a)))
     \<and> RecorderStart \<notin> set (workDone (combineVideosAndAudio p videoUrls a))
     \<and> AudioSourceStart \<notin> set (workDone (combineVideosAndAudio p videoUrls a))"
  using assms
  by (auto simp: combineVideosAndAudio_def Let_def
           split: if_splits sum.splits prod.splits option.splits)

lemma all_loaded:
  assumes "\<forall>u \<in> set videoUrls. \<exists>t d. loadVideo p u = (t, LoadedMetadata d)"
  shows "\<exists>vs. snd (promiseAll (map (videoElement p) videoUrls)) = Inr vs"
proof -
  have "\<forall>q \<in> set (map (videoElement p) videoUrls). \<exists>v. snd q = Inr v"
    using assms by (fastforce simp: videoElement_def)
  then have "firstRejection (map (videoElement p) videoUrls) = None"
    by (simp only: firstRejection_None_iff)
  then show ?thesis by (simp add: promiseAll_def)
qed

text \<open>
  C5 (as the code has it). If a clip of the input sequence fails to load, that is its
  element fires \<^verbatim>\<open>error\<close> before \<^verbatim>\<open>loadedmetadata\<close>, the composition fails: it
  returns an error, no recorder is ever created or started, and so no output blob
  exists.
\<close>

theorem clip_load_failure_aborts:
  assumes "u \<in> set videoUrls" and "snd (loadVideo p u) = ErrorEvent e"
  shows "(\<exists>err. started (combineVideosAndAudio p videoUrls a) = Inl err)
     \<and> (\<forall>m. NewMediaRecorder m \<notin> set (workDone (combineVideosAndAudio p videoUrls a)))
     \<and> RecorderStart \<notin> set (workDone (combineVideosAndAudio p videoUrls a))"
proof -
  have "\<exists>err. started (combineVideosAndAudio p videoUrls a) = Inl err"
  proof (cases "started (combineVideosAndAudio p videoUrls a)")
    case (Inl err)
    then show ?thesis by blast
  next
    case (Inr c0)
    then obtain vs where "snd (promiseAll (map (videoElement p) videoUrls)) = Inr vs"
      using started_Inr by blast
    then have "map snd (map (videoElement p) videoUrls) = map Inr vs"
      by (simp add: promiseAll_Inr_iff)
    moreover have "snd (videoElement p u) \<in> set (map snd (map (videoElement p) videoUrls))"
      using assms(1) by simp
    ultimately have "snd (videoElement p u) \<in> set (map Inr vs)" by simp
    then obtain v where "snd (videoElement p u) = Inr v" by auto
    then have False
      using assms(2) by (auto simp: videoElement_def split: prod.splits load_event.splits)
    then show ?thesis ..
  qed
  then show ?thesis using failed_start_records_nothing by blast
qed


theorem clip_load_failure_aborts_witness:
  "''blob:gone'' \<in> set [''blob:v1'', ''blob:gone'', ''blob:v3'']
   \<and> snd (loadVideo examplePlatform ''blob:gone'') = ErrorEvent ''[object Event]''
   \<and> started (combineVideosAndAudio examplePlatform [''blob:v1'', ''blob:gone'', ''blob:v3'']
                ''blob:audio'')
       = Inl (Error ''Failed to load video. Please try again. [object Event]'')
   \<and> RecorderStart \<notin> set (workDone (combineVideosAndAudio examplePlatform
                                        [''blob:v1'', ''blob:gone'', ''blob:v3''] ''blob:audio''))"
proof -
  have m: "''blob:gone'' \<in> set [''blob:v1'', ''blob:gone'', ''blob:v3'']" by simp
  have e: "snd (loadVideo examplePlatform ''blob:gone'') = ErrorEvent ''[object Event]''"
    by (simp add: examplePlatform_def)
  have v: "started (combineVideosAndAudio examplePlatform [''blob:v1'', ''blob:gone'', ''blob:v3'']
                ''blob:audio'')
       = Inl (Error ''Failed to load video. Please try again. [object Event]'')"
    by code_simp
  show ?thesis using m e v clip_load_failure_aborts [OF m e, of "''blob:audio''"] by simp
qed

text \<open>
  The claim as first stated covers a clip that fails to decode as well, and lets no
  partial output ever be returned. The load promise of a clip settles at
  \<^verbatim>\<open>loadedmetadata\<close>; a clip that fails after that is met only when it is played. Here
  all three clips load, the third one's \<^verbatim>\<open>play()\<close> rejects after five of the twelve
  intervals of the narration, and the promise resolves with the blob recorded so far.
\<close>

theorem failure_after_load_returns_partial_output:
  "snd (loadVideo examplePlatform ''blob:v1'') = LoadedMetadata 2
   \<and> snd (loadVideo examplePlatform ''blob:v2'') = LoadedMetadata 3
   \<and> snd (loadVideo examplePlatform ''blob:v3'') = LoadedMetadata 4
   \<and> started (combineVideosAndAudio examplePlatform exampleClips ''blob:audio'')
       = Inr exampleStart
   \<and> currentVideoIndex (run [Tick, Tick, Tick, Tick, Tick] exampleStart) = 2
   \<and> recorded (run [Tick, Tick, Tick, Tick, Tick, PlayRejected 2, DataAvailable 250, RecorderStop] exampleStart) = 5
   \<and> audioDuration (run [Tick, Tick, Tick, Tick, Tick, PlayRejected 2, DataAvailable 250, RecorderStop]
                        exampleStart) = 12
   \<and> recorderPromise (run [Tick, Tick, Tick, Tick, Tick, PlayRejected 2, DataAvailable 250, RecorderStop]
                         exampleStart)
       = Resolved \<lparr>blobParts = [250], blobType = ''video/webm'', fileExtension = ''webm''\<rparr>"
proof -
  have l: "snd (loadVideo examplePlatform ''blob:v1'') = LoadedMetadata 2
   \<and> snd (loadVideo examplePlatform ''blob:v2'') = LoadedMetadata 3
   \<and> snd (loadVideo examplePlatform ''blob:v3'') = LoadedMetadata 4"
    by (simp add: examplePlatform_def)
  have s: "started (combineVideosAndAudio examplePlatform exampleClips ''blob:audio'')
             = Inr exampleStart"
    by (simp add: example_started)
  have r: "currentVideoIndex (run [Tick, Tick, Tick, Tick, Tick] exampleStart) = 2
   \<and> recorded (run [Tick, Tick, Tick, Tick, Tick, PlayRejected 2, DataAvailable 250, RecorderStop] exampleStart) = 5
   \<and> audioDuration (run [Tick, Tick, Tick, Tick, Tick, PlayRejected 2, DataAvailable 250, RecorderStop]
                        exampleStart) = 12
   \<and> recorderPromise (run [Tick, Tick, Tick, Tick, Tick, PlayRejected 2, DataAvailable 250, RecorderStop]
                         exampleStart)
       = Resolved \<lparr>blobParts = [250], blobType = ''video/webm'', fileExtension = ''webm''\<rparr>"
    by code_simp
  show ?thesis using l s r by simp
qed

text \<open>
  C3 (as the code has it). If the platform recorder supports no entry of the ordered
  preference list (MP4 with AVC and AAC, plain MP4, WebM with VP8 and Opus, plain WebM),
  the composition fails and never creates or starts a recorder nor starts the
  narration. When the canvas context, the narration and every clip are obtained, the
  failure is the capability error; by then the narration has been decoded and every
  clip loaded, and the audio context is closed.
\<close>

theorem unsupported_format_fails:
  assumes "\<forall>m \<in> set mimeTypesToTry. \<not> isTypeSupported p m"
  shows "(\<exists>err. started (combineVideosAndAudio p videoUrls a) = Inl err)
     \<and> (\<forall>m. NewMediaRecorder m \<notin> set (workDone (combineVideosAndAudio p videoUrls a)))
     \<and> RecorderStart \<notin> set (workDone (combineVideosAndAudio p videoUrls a))
     \<and> AudioSourceStart \<notin> set (workDone (combineVideosAndAudio p videoUrls a))
     \<and> (getContext p \<and> (\<exists>t T. fetchDecodeAudio p a = (t, Inr T)) \<and>
         (\<forall>u \<in> set videoUrls. \<exists>t d. loadVideo p u = (t, LoadedMetadata d)) \<longrightarrow>
           combineVideosAndAudio p videoUrls a
             = \<lparr>workDone = [GetCanvasContext, NewAudioContext, DecodeAudio a] @
                            map LoadVideo videoUrls @ [CloseAudioContext],
                started = Inl (Error
                  ''Your browser does not support the required video recording formats.'')\<rparr>)"
proof -
  have none: "List.find (isTypeSupported p) mimeTypesToTry = None"
    using assms by (simp add: find_None_iff)
  have f: "\<exists>err. started (combineVideosAndAudio p videoUrls a) = Inl err"
  proof (cases "started (combineVideosAndAudio p videoUrls a)")
    case (Inl err)
    then show ?thesis by blast
  next
    case (Inr c0)
    then show ?thesis using started_Inr [OF Inr] none by auto
  qed
  have g: "combineVideosAndAudio p videoUrls a
             = \<lparr>workDone = [GetCanvasContext, NewAudioContext, DecodeAudio a] @
                            map LoadVideo videoUrls @ [CloseAudioContext],
                started = Inl (Error
                  ''Your browser does not support the required video recording formats.'')\<rparr>"
    if h: "getContext p \<and> (\<exists>t T. fetchDecodeAudio p a = (t, Inr T)) \<and>
         (\<forall>u \<in> set videoUrls. \<exists>t d. loadVideo p u = (t, LoadedMetadata d))"
  proof -
    obtain t T where au: "fetchDecodeAudio p a = (t, Inr T)" using h by blast
    obtain vs where "snd (promiseAll (map (videoElement p) videoUrls)) = Inr vs"
      using all_loaded h by blast
    then obtain t' where vi: "promiseAll (map (videoElement p) videoUrls) = (t', Inr vs)"
      by (cases "promiseAll (map (videoElement p) videoUrls)") simp
    show ?thesis
      using h none by (simp add: combineVideosAndAudio_def Let_def promiseAll2_def au vi)
  qed
  show ?thesis using f g failed_start_records_nothing by blast
qed



theorem unsupported_format_fails_witness:
  "list_all (\<lambda>m. \<not> isTypeSupported (examplePlatform\<lparr>isTypeSupported := (\<lambda>m. False)\<rparr>) m)
     mimeTypesToTry
   \<and> combineVideosAndAudio (examplePlatform\<lparr>isTypeSupported := (\<lambda>m. False)\<rparr>) exampleClips
       ''blob:audio''
       = \<lparr>workDone = [GetCanvasContext, NewAudioContext, DecodeAudio ''blob:audio''] @
                      map LoadVideo exampleClips @ [CloseAudioContext],
          started = Inl (Error
            ''Your browser does not support the required video recording formats.'')\<rparr>"
proof -
  let ?p = "examplePlatform\<lparr>isTypeSupported := (\<lambda>m. False)\<rparr>"
  have h: "\<forall>m \<in> set mimeTypesToTry. \<not> isTypeSupported ?p m" by simp
  have g: "getContext ?p \<and> (\<exists>t T. fetchDecodeAudio ?p ''blob:audio'' = (t, Inr T)) \<and>
         (\<forall>u \<in> set exampleClips. \<exists>t d. loadVideo ?p u = (t, LoadedMetadata d))"
    by (simp add: examplePlatform_def exampleClips_def)
  show ?thesis
    using h g unsupported_format_fails [OF h, of exampleClips "''blob:audio''"]
    by (simp add: list_all_iff)
qed

text \<open>
  The claim as first stated has the capability failure come before any audio decoding or
  clip loading. On a platform that supports no format the narration is decoded and the
  three clips are loaded before the failure; and when a clip fails to load there, the
  failure reported is that clip's, not the capability error.
\<close>

theorem unsupported_format_fails_after_loading:
  "DecodeAudio ''blob:audio''
     \<in> set (workDone (combineVideosAndAudio (examplePlatform\<lparr>isTypeSupported := (\<lambda>m. False)\<rparr>)
                        exampleClips ''blob:audio''))
   \<and> LoadVideo ''blob:v3''
     \<in> set (workDone (combineVideosAndAudio (examplePlatform\<lparr>isTypeSupported := (\<lambda>m. False)\<rparr>)
                        exampleClips ''blob:audio''))
   \<and> started (combineVideosAndAudio (examplePlatform\<lparr>isTypeSupported := (\<lambda>m. False)\<rparr>)
                exampleClips ''blob:audio'')
       = Inl (Error ''Your browser does not support the required video recording formats.'')
   \<and> started (combineVideosAndAudio (examplePlatform\<lparr>isTypeSupported := (\<lambda>m. False)\<rparr>)
                [''blob:v1'', ''blob:gone''] ''blob:audio'')
       = Inl (Error ''Failed to load video. Please try again. [object Event]'')"
proof -
  have a: "combineVideosAndAudio (examplePlatform\<lparr>isTypeSupported := (\<lambda>m. False)\<rparr>)
             exampleClips ''blob:audio''
     = \<lparr>workDone = [GetCanvasContext, NewAudioContext, DecodeAudio ''blob:audio'',
                     LoadVideo ''blob:v1'', LoadVideo ''blob:v2'', LoadVideo ''blob:v3'',
                     CloseAudioContext],
        started = Inl (Error
          ''Your browser does not support the required video recording formats.'')\<rparr>"
    by code_simp
  have b: "started (combineVideosAndAudio (examplePlatform\<lparr>isTypeSupported := (\<lambda>m. False)\<rparr>)
                [''blob:v1'', ''blob:gone''] ''blob:audio'')
       = Inl (Error ''Failed to load video. Please try again. [object Event]'')"
    by code_simp
  show ?thesis unfolding a using b by simp
qed
end
